theory Spec2Isabelle
  imports Main "HOL-Library.Word"
begin

section \<open>JavaScript values and the platform\<close>

text \<open>
  The front end is TypeScript running on the browser platform. Values that reach the
  code at run time (\<open>response.data\<close>, the result of \<open>JSON.parse\<close>, the entries
  of the React state arrays) are JavaScript values: TypeScript's annotations are erased and
  nothing in the sources validates them. A number is held as the text that
  \<open>Number.prototype.toString\<close> gives it, so that \<open>0\<close> and \<open>NaN\<close> are the falsy ones.
  A string is held as its UTF-8 bytes.
\<close>

datatype jsval =
    JUndefined
  | JNull
  | JBool bool
  | JNum string
  | JStr string
  | JArr "jsval list"
  | JObj "(string \<times> jsval) list"

record js_error =
  err_name :: string
  err_message :: string

text \<open>How a promise settles.\<close>

datatype 'a settled = Resolved 'a | Rejected js_error

type_synonym byte = "8 word"

text \<open>
  What the code takes from the platform and not from this repository:
  \<^item> \<open>new TextDecoder()\<close> and \<open>decoder.decode(value, {stream: true})\<close>: a decoder is a
    state machine that reads one byte at a time and keeps its state between calls;
  \<^item> \<open>JSON.parse\<close> (\<open>Inl\<close> is the \<open>SyntaxError\<close> it throws) and \<open>JSON.stringify\<close>;
  \<^item> the conversion of a value to a string inside a template literal;
  \<^item> the \<open>TypeError\<close> thrown when a property of \<open>null\<close> or \<open>undefined\<close> is read.
\<close>

record 'd platform =
  decoder_new :: 'd
  decode_step :: "'d \<Rightarrow> byte \<Rightarrow> string \<times> 'd"
  JSON_parse :: "string \<Rightarrow> js_error + jsval"
  JSON_stringify :: "jsval \<Rightarrow> jsval"
  ToString :: "jsval \<Rightarrow> string"
  TypeError_reading :: "string \<Rightarrow> js_error"

text \<open>\<open>decoder.decode(value, {stream: true})\<close>: the bytes of one chunk, in order.\<close>

fun decode :: "'d platform \<Rightarrow> 'd \<Rightarrow> byte list \<Rightarrow> string \<times> 'd" where
  "decode P d [] = ([], d)"
| "decode P d (b # bs) =
     (case decode_step P d b of (s, d') \<Rightarrow>
        (case decode P d' bs of (t, d'') \<Rightarrow> (s @ t, d'')))"

fun truthy :: "jsval \<Rightarrow> bool" where
  "truthy JUndefined = False"
| "truthy JNull = False"
| "truthy (JBool b) = b"
| "truthy (JNum n) = (n \<noteq> ''0'' \<and> n \<noteq> ''NaN'')"
| "truthy (JStr s) = (s \<noteq> [])"
| "truthy (JArr xs) = True"
| "truthy (JObj kvs) = True"

text \<open>\<open>a || b\<close>\<close>

definition or_else :: "jsval \<Rightarrow> jsval \<Rightarrow> jsval" where
  "or_else a b = (if truthy a then a else b)"

text \<open>
  \<open>v.k\<close> for the two properties the code reads, \<open>message\<close> and \<open>status\<close>, which no
  prototype defines: an object gives its own entry or \<open>undefined\<close>, \<open>null\<close> and
  \<open>undefined\<close> throw, every other value gives \<open>undefined\<close>.
\<close>

fun get_prop :: "'d platform \<Rightarrow> jsval \<Rightarrow> string \<Rightarrow> js_error + jsval" where
  "get_prop P JUndefined k = Inl (TypeError_reading P k)"
| "get_prop P JNull k = Inl (TypeError_reading P k)"
| "get_prop P (JObj kvs) k = Inr (case map_of kvs k of Some v \<Rightarrow> v | None \<Rightarrow> JUndefined)"
| "get_prop P v k = Inr JUndefined"

text \<open>A value inside a template literal.\<close>

fun template :: "'d platform \<Rightarrow> jsval \<Rightarrow> string" where
  "template P (JStr s) = s"
| "template P v = ToString P v"

fun show_nat :: "nat \<Rightarrow> string" where
  "show_nat n =
     (if n < 10 then [char_of (48 + n)]
      else show_nat (n div 10) @ [char_of (48 + n mod 10)])"

definition utf8 :: "nat list \<Rightarrow> string" where
  "utf8 bs = map char_of bs"

section \<open>store/settings.ts\<close>

record settings =
  baseUrl :: string
  token :: string
  isDarkMode :: bool

definition initial_settings :: settings where
  "initial_settings = \<lparr>baseUrl = ''http://localhost:80'', token = '''', isDarkMode = False\<rparr>"

definition setBaseUrl :: "string \<Rightarrow> settings \<Rightarrow> settings" where
  "setBaseUrl u s = s\<lparr>baseUrl := u\<rparr>"

definition setToken :: "string \<Rightarrow> settings \<Rightarrow> settings" where
  "setToken t s = s\<lparr>token := t\<rparr>"

definition toggleDarkMode :: "settings \<Rightarrow> settings" where
  "toggleDarkMode s = s\<lparr>isDarkMode := \<not> isDarkMode s\<rparr>"

definition reset :: "settings \<Rightarrow> settings" where
  "reset s = s\<lparr>baseUrl := ''http://localhost:80'', token := '''', isDarkMode := False\<rparr>"

section \<open>services/api: createAPI\<close>

datatype http_method = GET | POST | DELETE

record request_config =
  baseURL :: string
  url :: string
  http_method :: http_method
  timeout :: nat
  Content_Type :: string
  Authorization :: string

text \<open>
  \<open>axios.create\<close> keeps the defaults it is given; they are read from the store when
  \<open>createAPI\<close> runs.
\<close>

record api =
  default_baseURL :: string
  default_timeout :: nat
  default_Content_Type :: string
  default_Authorization :: string

definition createAPI :: "settings \<Rightarrow> api" where
  "createAPI s =
     \<lparr>default_baseURL = baseUrl s, default_timeout = 10000,
      default_Content_Type = ''application/json'',
      default_Authorization = ''Bearer '' @ token s\<rparr>"

text \<open>The request interceptor: it reads the store when the request is made.\<close>

definition request_interceptor :: "settings \<Rightarrow> request_config \<Rightarrow> request_config" where
  "request_interceptor s config =
     config\<lparr>baseURL := baseUrl s, Authorization := ''Bearer '' @ token s\<rparr>"

text \<open>
  \<open>api.get(u)\<close>, \<open>api.post(u)\<close>, \<open>api.delete(u)\<close>: the instance's defaults, then the
  interceptor, with the store as it is now.
\<close>

definition api_request :: "settings \<Rightarrow> api \<Rightarrow> http_method \<Rightarrow> string \<Rightarrow> request_config" where
  "api_request now a m u =
     request_interceptor now
       \<lparr>baseURL = default_baseURL a, url = u, http_method = m, timeout = default_timeout a,
        Content_Type = default_Content_Type a, Authorization = default_Authorization a\<rparr>"

text \<open>
  The response interceptor writes a line to the console for a failed request and rejects
  with the error it was given; it changes neither the response nor the error, and is
  left out.
\<close>

text \<open>The request of \<open>handleAddFingerprint\<close>, made with \<open>fetch\<close>.\<close>

record fetch_request =
  fetch_url :: string
  fetch_method :: http_method
  fetch_Content_Type :: string
  fetch_Authorization :: string
  fetch_body :: jsval
  fetch_signal :: nat

text \<open>
  The operations that send a request, and the request each one sends.
  \<open>AddFingerprint name c\<close> is \<open>handleAddFingerprint\<close> for the label \<open>name\<close>, with
  \<open>c\<close> the \<open>AbortController\<close> it creates.
\<close>

datatype operation =
    AddFingerprint string nat
  | FetchFingerprints
  | DeleteFingerprint string
  | FetchMonitoringStatus
  | StartMonitoring
  | StopMonitoring
  | FetchDoorStatus
  | Lock
  | Unlock

datatype sent = Axios request_config | Fetch fetch_request

definition add_fingerprint_request ::
  "'d platform \<Rightarrow> settings \<Rightarrow> string \<Rightarrow> nat \<Rightarrow> fetch_request" where
  "add_fingerprint_request P now name sig =
     \<lparr>fetch_url = baseUrl now @ ''/fingerprints'', fetch_method = POST,
      fetch_Content_Type = ''application/json'',
      fetch_Authorization = ''Bearer '' @ token now,
      fetch_body = JSON_stringify P (JObj [(''name'', JStr name)]),
      fetch_signal = sig\<rparr>"

fun send :: "'d platform \<Rightarrow> settings \<Rightarrow> api \<Rightarrow> operation \<Rightarrow> sent" where
  "send P now a (AddFingerprint name c) = Fetch (add_fingerprint_request P now name c)"
| "send P now a FetchFingerprints = Axios (api_request now a GET ''/fingerprints'')"
| "send P now a (DeleteFingerprint i) = Axios (api_request now a DELETE (''/fingerprints/'' @ i))"
| "send P now a FetchMonitoringStatus = Axios (api_request now a GET ''/monitoring/status'')"
| "send P now a StartMonitoring = Axios (api_request now a POST ''/monitoring/start'')"
| "send P now a StopMonitoring = Axios (api_request now a POST ''/monitoring/stop'')"
| "send P now a FetchDoorStatus = Axios (api_request now a GET ''/servo/status'')"
| "send P now a Lock = Axios (api_request now a POST ''/servo/lock'')"
| "send P now a Unlock = Axios (api_request now a POST ''/servo/unlock'')"

text \<open>The base address and the authorization header a request goes out with.\<close>

fun sent_base :: "sent \<Rightarrow> string \<Rightarrow> bool" where
  "sent_base (Axios c) b = (baseURL c = b)"
| "sent_base (Fetch f) b = (fetch_url f = b @ ''/fingerprints'')"

fun sent_Authorization :: "sent \<Rightarrow> string" where
  "sent_Authorization (Axios c) = Authorization c"
| "sent_Authorization (Fetch f) = fetch_Authorization f"

text \<open>
  A session of the application: the settings form saves a new base address and token
  (\<open>handleSave\<close>), or an operation sends its request. Every request is kept with the
  store as it was when the request was sent.
\<close>

datatype user_action = Save string string | Do operation

fun requests_sent ::
  "'d platform \<Rightarrow> api \<Rightarrow> settings \<Rightarrow> user_action list \<Rightarrow> (settings \<times> sent) list" where
  "requests_sent P a s [] = []"
| "requests_sent P a s (Save u t # as) = requests_sent P a (setToken t (setBaseUrl u s)) as"
| "requests_sent P a s (Do op # as) = (s, send P s a op) # requests_sent P a s as"

section \<open>The texts shown to the user\<close>

text \<open>
  The messages of the monitoring and door panels are Chinese; each is given by its UTF-8
  bytes, with its meaning beside it.
\<close>

definition msg_fetch_monitoring_failed :: string where \<comment> \<open>fetching the monitoring status failed, check the network connection and the API settings\<close>
  "msg_fetch_monitoring_failed = utf8
      [232, 142, 183, 229, 143, 150, 231, 155, 145, 230, 142, 167, 231, 138, 182,
       230, 128, 129, 229, 164, 177, 232, 180, 165, 239, 188, 140, 232, 175, 183,
       230, 163, 128, 230, 159, 165, 231, 189, 145, 231, 187, 156, 232, 191, 158,
       230, 142, 165, 229, 146, 140, 65, 80, 73, 232, 174, 190, 231, 189, 174]"

definition log_fetch_monitoring_failed :: string where \<comment> \<open>fetching the monitoring status failed:\<close>
  "log_fetch_monitoring_failed = utf8
      [232, 142, 183, 229, 143, 150, 231, 155, 145, 230, 142, 167, 231, 138, 182,
       230, 128, 129, 229, 164, 177, 232, 180, 165, 58]"

definition msg_monitoring_started :: string where \<comment> \<open>fingerprint monitoring started\<close>
  "msg_monitoring_started = utf8
      [230, 140, 135, 231, 186, 185, 231, 155, 145, 230, 142, 167, 229, 183, 178,
       229, 144, 175, 229, 138, 168]"

definition msg_start_monitoring_failed :: string where \<comment> \<open>starting the monitoring failed, try again\<close>
  "msg_start_monitoring_failed = utf8
      [229, 144, 175, 229, 138, 168, 231, 155, 145, 230, 142, 167, 229, 164, 177,
       232, 180, 165, 239, 188, 140, 232, 175, 183, 233, 135, 141, 232, 175, 149]"

definition log_start_monitoring_failed :: string where \<comment> \<open>starting the monitoring failed:\<close>
  "log_start_monitoring_failed = utf8
      [229, 144, 175, 229, 138, 168, 231, 155, 145, 230, 142, 167, 229, 164, 177,
       232, 180, 165, 58]"

definition msg_monitoring_stopped :: string where \<comment> \<open>fingerprint monitoring stopped\<close>
  "msg_monitoring_stopped = utf8
      [230, 140, 135, 231, 186, 185, 231, 155, 145, 230, 142, 167, 229, 183, 178,
       229, 129, 156, 230, 173, 162]"

definition msg_stop_monitoring_failed :: string where \<comment> \<open>stopping the monitoring failed, try again\<close>
  "msg_stop_monitoring_failed = utf8
      [229, 129, 156, 230, 173, 162, 231, 155, 145, 230, 142, 167, 229, 164, 177,
       232, 180, 165, 239, 188, 140, 232, 175, 183, 233, 135, 141, 232, 175, 149]"

definition log_stop_monitoring_failed :: string where \<comment> \<open>stopping the monitoring failed:\<close>
  "log_stop_monitoring_failed = utf8
      [229, 129, 156, 230, 173, 162, 231, 155, 145, 230, 142, 167, 229, 164, 177,
       232, 180, 165, 58]"

definition msg_fetch_door_failed :: string where \<comment> \<open>fetching the door status failed, check the network connection and the API settings\<close>
  "msg_fetch_door_failed = utf8
      [232, 142, 183, 229, 143, 150, 233, 151, 168, 231, 138, 182, 230, 128, 129,
       229, 164, 177, 232, 180, 165, 239, 188, 140, 232, 175, 183, 230, 163, 128,
       230, 159, 165, 231, 189, 145, 231, 187, 156, 232, 191, 158, 230, 142, 165,
       229, 146, 140, 65, 80, 73, 232, 174, 190, 231, 189, 174]"

definition log_fetch_door_failed :: string where \<comment> \<open>fetching the door status failed:\<close>
  "log_fetch_door_failed = utf8
      [232, 142, 183, 229, 143, 150, 233, 151, 168, 231, 138, 182, 230, 128, 129,
       229, 164, 177, 232, 180, 165, 58]"

definition msg_door_locked :: string where \<comment> \<open>door locked\<close>
  "msg_door_locked = utf8
      [233, 151, 168, 229, 183, 178, 233, 148, 129, 229, 174, 154]"

definition msg_lock_failed :: string where \<comment> \<open>locking the door failed, try again\<close>
  "msg_lock_failed = utf8
      [233, 148, 129, 233, 151, 168, 230, 147, 141, 228, 189, 156, 229, 164, 177,
       232, 180, 165, 239, 188, 140, 232, 175, 183, 233, 135, 141, 232, 175, 149]"

definition log_lock_failed :: string where \<comment> \<open>locking the door failed:\<close>
  "log_lock_failed = utf8
      [233, 148, 129, 233, 151, 168, 230, 147, 141, 228, 189, 156, 229, 164, 177,
       232, 180, 165, 58]"

definition msg_door_unlocked :: string where \<comment> \<open>door unlocked\<close>
  "msg_door_unlocked = utf8
      [233, 151, 168, 229, 183, 178, 232, 167, 163, 233, 148, 129]"

definition msg_unlock_failed :: string where \<comment> \<open>unlocking failed, try again\<close>
  "msg_unlock_failed = utf8
      [232, 167, 163, 233, 148, 129, 230, 147, 141, 228, 189, 156, 229, 164, 177,
       232, 180, 165, 239, 188, 140, 232, 175, 183, 233, 135, 141, 232, 175, 149]"

definition log_unlock_failed :: string where \<comment> \<open>unlocking failed:\<close>
  "log_unlock_failed = utf8
      [232, 167, 163, 233, 148, 129, 230, 147, 141, 228, 189, 156, 229, 164, 177,
       232, 180, 165, 58]"

definition label_monitoring :: string where \<comment> \<open>monitoring\<close>
  "label_monitoring = utf8
      [231, 155, 145, 230, 142, 167, 228, 184, 173]"

definition label_paused :: string where \<comment> \<open>paused\<close>
  "label_paused = utf8
      [229, 183, 178, 230, 154, 130, 229, 129, 156]"

definition label_stopped :: string where \<comment> \<open>stopped\<close>
  "label_stopped = utf8
      [229, 183, 178, 229, 129, 156, 230, 173, 162]"

definition label_unknown :: string where \<comment> \<open>unknown status\<close>
  "label_unknown = utf8
      [230, 156, 170, 231, 159, 165, 231, 138, 182, 230, 128, 129]"

definition label_locked :: string where \<comment> \<open>locked\<close>
  "label_locked = utf8
      [229, 183, 178, 233, 148, 129, 229, 174, 154]"

definition label_unlocked :: string where \<comment> \<open>unlocked\<close>
  "label_unlocked = utf8
      [229, 183, 178, 232, 167, 163, 233, 148, 129]"

section \<open>features/monitoring: MonitoringControl and DoorControl\<close>

text \<open>
  What a component shows and logs: the calls of \<open>messageApi\<close> and of
  \<open>console.error\<close>, in order.
\<close>

datatype level = success | error | info | warning

datatype console_arg = CStr string | CErr js_error

record widget =
  messages :: "(level \<times> jsval) list"
  console :: "console_arg list list"
  loading :: bool

record control = widget +
  actionLoading :: bool

record monitoring_control = control +
  monitoringStatus :: jsval

record door_control = control +
  doorStatus :: jsval

text \<open>
  Every handler is an \<open>async\<close> function: it is given how the request it awaits settled
  and the component's state, and returns how its own promise settles together with the
  new state. \<open>response.data\<close> is the value the server sent.
\<close>

definition fetchMonitoringStatus ::
  "'d platform \<Rightarrow> jsval settled \<Rightarrow> monitoring_control \<Rightarrow> unit settled \<times> monitoring_control" where
  "fetchMonitoringStatus P response st =
     (let st1 = st\<lparr>loading := True\<rparr>;
          failed = (\<lambda>e. st1\<lparr>messages := messages st1 @ [(error, JStr msg_fetch_monitoring_failed)],
                              console := console st1 @ [[CStr log_fetch_monitoring_failed, CErr e]]\<rparr>);
          st2 = (case response of
                   Rejected e \<Rightarrow> failed e
                 | Resolved data \<Rightarrow>
                     (case get_prop P data ''status'' of
                        Inl e \<Rightarrow> failed e
                      | Inr v \<Rightarrow> st1\<lparr>monitoringStatus := v\<rparr>))
      in (Resolved (), st2\<lparr>loading := False\<rparr>))"

definition handleStartMonitoring ::
  "jsval settled \<Rightarrow> monitoring_control \<Rightarrow> unit settled \<times> monitoring_control" where
  "handleStartMonitoring response st =
     (let st1 = st\<lparr>actionLoading := True\<rparr>;
          st2 = (case response of
                   Resolved r \<Rightarrow>
                     st1\<lparr>messages := messages st1 @ [(success, JStr msg_monitoring_started)],
                         monitoringStatus := JStr ''enabled_and_active''\<rparr>
                 | Rejected e \<Rightarrow>
                     st1\<lparr>messages := messages st1 @ [(error, JStr msg_start_monitoring_failed)],
                         console := console st1 @ [[CStr log_start_monitoring_failed, CErr e]]\<rparr>)
      in (Resolved (), st2\<lparr>actionLoading := False\<rparr>))"

definition handleStopMonitoring ::
  "jsval settled \<Rightarrow> monitoring_control \<Rightarrow> unit settled \<times> monitoring_control" where
  "handleStopMonitoring response st =
     (let st1 = st\<lparr>actionLoading := True\<rparr>;
          st2 = (case response of
                   Resolved r \<Rightarrow>
                     st1\<lparr>messages := messages st1 @ [(success, JStr msg_monitoring_stopped)],
                         monitoringStatus := JStr ''disabled''\<rparr>
                 | Rejected e \<Rightarrow>
                     st1\<lparr>messages := messages st1 @ [(error, JStr msg_stop_monitoring_failed)],
                         console := console st1 @ [[CStr log_stop_monitoring_failed, CErr e]]\<rparr>)
      in (Resolved (), st2\<lparr>actionLoading := False\<rparr>))"

text \<open>The text of the \<open>Statistic\<close> for a monitoring status (lines 92 to 100).\<close>

definition monitoring_text :: "jsval \<Rightarrow> string" where
  "monitoring_text s =
     (if s = JStr ''enabled_and_active'' then label_monitoring
      else if s = JStr ''enabled_but_paused'' then label_paused
      else if s = JStr ''disabled'' then label_stopped
      else label_unknown)"

definition fetchDoorStatus ::
  "'d platform \<Rightarrow> jsval settled \<Rightarrow> door_control \<Rightarrow> unit settled \<times> door_control" where
  "fetchDoorStatus P response st =
     (let st1 = st\<lparr>loading := True\<rparr>;
          failed = (\<lambda>e. st1\<lparr>messages := messages st1 @ [(error, JStr msg_fetch_door_failed)],
                              console := console st1 @ [[CStr log_fetch_door_failed, CErr e]]\<rparr>);
          st2 = (case response of
                   Rejected e \<Rightarrow> failed e
                 | Resolved data \<Rightarrow>
                     (case get_prop P data ''status'' of
                        Inl e \<Rightarrow> failed e
                      | Inr v \<Rightarrow> st1\<lparr>doorStatus := v\<rparr>))
      in (Resolved (), st2\<lparr>loading := False\<rparr>))"

definition handleLock :: "jsval settled \<Rightarrow> door_control \<Rightarrow> unit settled \<times> door_control" where
  "handleLock response st =
     (let st1 = st\<lparr>actionLoading := True\<rparr>;
          st2 = (case response of
                   Resolved r \<Rightarrow>
                     st1\<lparr>messages := messages st1 @ [(success, JStr msg_door_locked)],
                         doorStatus := JStr ''locked''\<rparr>
                 | Rejected e \<Rightarrow>
                     st1\<lparr>messages := messages st1 @ [(error, JStr msg_lock_failed)],
                         console := console st1 @ [[CStr log_lock_failed, CErr e]]\<rparr>)
      in (Resolved (), st2\<lparr>actionLoading := False\<rparr>))"

definition handleUnlock :: "jsval settled \<Rightarrow> door_control \<Rightarrow> unit settled \<times> door_control" where
  "handleUnlock response st =
     (let st1 = st\<lparr>actionLoading := True\<rparr>;
          st2 = (case response of
                   Resolved r \<Rightarrow>
                     st1\<lparr>messages := messages st1 @ [(success, JStr msg_door_unlocked)],
                         doorStatus := JStr ''unlocked''\<rparr>
                 | Rejected e \<Rightarrow>
                     st1\<lparr>messages := messages st1 @ [(error, JStr msg_unlock_failed)],
                         console := console st1 @ [[CStr log_unlock_failed, CErr e]]\<rparr>)
      in (Resolved (), st2\<lparr>actionLoading := False\<rparr>))"

text \<open>The text of the \<open>Statistic\<close> for a door status (line 243).\<close>

definition door_text :: "jsval \<Rightarrow> string" where
  "door_text s =
     (if s = JStr ''locked'' then label_locked
      else if s = JStr ''unlocked'' then label_unlocked
      else label_unknown)"

section \<open>features/fingerprint: FingerprintList\<close>

text \<open>
  The state of the component: its React state (\<open>sseLog\<close>, \<open>isRegistering\<close>,
  \<open>isAddModalVisible\<close>), the ref holding the current \<open>AbortController\<close>, and what it
  has done to the outside: the \<open>fetch\<close> calls, the calls of \<open>fetchFingerprints\<close> and of
  \<open>reader.cancel\<close>, the auto-close timers it has set. An \<open>AbortController\<close> is known by
  a number; \<open>aborted\<close> lists those whose \<open>abort()\<close> was called. Of \<open>fetchFingerprints\<close>
  (lines 28 to 47) only the calls are counted, and \<open>form.resetFields\<close> is left out.

  A state setter called with a function (\<open>setSseLog(prev => ...)\<close>) only queues that
  function: React runs it later, when it renders the component, outside the \<open>try\<close>
  blocks of the code that queued it. \<open>sseLog\<close> is the log after the queued functions
  that return; \<open>render_errors\<close> lists the errors of the queued functions that throw.
  When there is one, the render throws it.
\<close>

record fingerprint_list = widget +
  sseLog :: "jsval list"
  isRegistering :: bool
  isAddModalVisible :: bool
  abortControllerRef :: "nat option"
  controllers :: nat
  aborted :: "nat list"
  fetches :: "fetch_request list"
  fetchFingerprints_calls :: nat
  reader_cancels :: nat
  timeouts :: nat
  render_errors :: "js_error list"

text \<open>
  One run of the \<open>async\<close> function \<open>handleAddFingerprint\<close>: where it is suspended, and
  its local variables. \<open>isRegistering_seen\<close> is the \<open>const isRegistering\<close> of the render
  that created the function: the value the closure reads at line 138.
\<close>

datatype pc = AwaitFetch | AwaitErrorBody nat | AwaitRead | Settled

record 'd invocation =
  pc :: pc
  signal :: nat
  isRegistering_seen :: bool
  buffer :: string
  decoder :: 'd

record response =
  ok :: bool
  status :: nat
  has_body :: bool

datatype read_result = Chunk "byte list" | Done

text \<open>
  What happens while a run is suspended: a promise it awaits settles (\<open>fetch\<close>,
  \<open>response.json()\<close>, \<open>reader.read()\<close>), or the user clicks the cancel button.
\<close>

datatype event =
    CancelClicked
  | FetchSettled "response settled"
  | JsonSettled "jsval settled"
  | ReadSettled "read_result settled"

datatype flow = Continue | Return

text \<open>\<open>buffer.split('\n')\<close>: never empty.\<close>

fun split_nl :: "string \<Rightarrow> string list" where
  "split_nl [] = [[]]"
| "split_nl (c # cs) =
     (if c = CHR 0x0A then [] # split_nl cs
      else (case split_nl cs of l # ls \<Rightarrow> (c # l) # ls | [] \<Rightarrow> [[c]]))"

text \<open>Line 96: the first entry of the log.\<close>

definition starting_entry :: "string \<Rightarrow> jsval" where
  \<open>starting_entry name = JStr (''Starting registration for "'' @ name @ ''"...'')\<close>

text \<open>Lines 94 to 110: the function starts, up to the \<open>await fetch\<close>.\<close>

definition handleAddFingerprint ::
  "'d platform \<Rightarrow> settings \<Rightarrow> bool \<Rightarrow> string \<Rightarrow> fingerprint_list
     \<Rightarrow> 'd invocation \<times> fingerprint_list" where
  \<open>handleAddFingerprint P now seen name ui =
     (let c = controllers ui in
      (\<lparr>pc = AwaitFetch, signal = c, isRegistering_seen = seen, buffer = [],
        decoder = decoder_new P\<rparr>,
       ui\<lparr>isRegistering := True,
          sseLog := [starting_entry name],
          abortControllerRef := Some c,
          controllers := c + 1,
          fetches := fetches ui @ [add_fingerprint_request P now name c]\<rparr>))\<close>

text \<open>Lines 188 to 198: the \<open>catch\<close> block.\<close>

definition catch_block :: "js_error \<Rightarrow> fingerprint_list \<Rightarrow> fingerprint_list" where
  "catch_block e ui =
     (if err_name e = ''AbortError'' then
        ui\<lparr>messages := messages ui @ [(info, JStr ''Fingerprint registration cancelled by user.'')],
           sseLog := sseLog ui @ [JStr ''Fingerprint registration cancelled by user.'']\<rparr>
      else
        ui\<lparr>messages := messages ui @ [(error, JStr (''Connection error: '' @ err_message e))],
           console := console ui @ [[CStr ''Fingerprint registration failed:'', CErr e]],
           sseLog := sseLog ui @ [JStr (''Connection error: '' @ err_message e)]\<rparr>)"

text \<open>Lines 199 to 204: the \<open>finally\<close> block.\<close>

definition finally_block :: "'d invocation \<Rightarrow> fingerprint_list \<Rightarrow> fingerprint_list" where
  "finally_block iv ui =
     ui\<lparr>isRegistering := False,
        abortControllerRef :=
          (if abortControllerRef ui = Some (signal iv) then None else abortControllerRef ui)\<rparr>"

text \<open>Lines 112 to 119: the response is not ok, and its body has been read.\<close>

definition error_response ::
  "'d platform \<Rightarrow> nat \<Rightarrow> jsval settled \<Rightarrow> 'd invocation \<Rightarrow> fingerprint_list
     \<Rightarrow> 'd invocation \<times> fingerprint_list" where
  "error_response P code body iv ui =
     (let errorData =
            (case body of
               Resolved v \<Rightarrow> v
             | Rejected e \<Rightarrow>
                 JObj [(''message'', JStr ''Failed to parse error response from server.'')])
      in case get_prop P errorData ''message'' of
           Inl e \<Rightarrow> (iv\<lparr>pc := Settled\<rparr>, finally_block iv (catch_block e ui))
         | Inr m \<Rightarrow>
             (let errorMessage =
                    ''Error '' @ show_nat code @ '': '' @
                    template P (or_else m (JStr ''Registration failed to start.''))
              in (iv\<lparr>pc := Settled\<rparr>,
                  finally_block iv
                    (ui\<lparr>messages := messages ui @ [(error, JStr errorMessage)],
                        sseLog := sseLog ui @ [JStr errorMessage],
                        isRegistering := False\<rparr>))))"

text \<open>Lines 121 to 127: the response has no body.\<close>

definition no_body :: "'d invocation \<Rightarrow> fingerprint_list \<Rightarrow> 'd invocation \<times> fingerprint_list" where
  "no_body iv ui =
     (iv\<lparr>pc := Settled\<rparr>,
      finally_block iv
        (ui\<lparr>messages := messages ui @ [(error, JStr ''No response body from server for SSE.'')],
            sseLog := sseLog ui @ [JStr ''No response body from server for SSE.''],
            isRegistering := False\<rparr>))"

text \<open>
  Lines 150 to 185: one line of the \<open>for\<close> loop. \<open>Return\<close> is the \<open>return\<close> of lines
  167 and 178. Line 154 queues a function for \<open>setSseLog\<close>; the read of
  \<open>eventData.message\<close> in it happens when React runs the function, not in the \<open>try\<close>:
  when that read throws, the error is the render's, and the \<open>catch\<close> of line 181 does
  not see it. The first read of the \<open>try\<close> is \<open>eventData.status\<close> at line 156.
\<close>

definition process_line ::
  "'d platform \<Rightarrow> fingerprint_list \<Rightarrow> string \<Rightarrow> flow \<times> fingerprint_list" where
  "process_line P ui line =
     (if take 6 line \<noteq> ''data: '' then (Continue, ui)
      else
        (let jsonData = drop 6 line;
             caught = (\<lambda>e u.
               (Continue,
                u\<lparr>console := console u @ [[CStr ''Error parsing SSE JSON:'', CErr e, CStr jsonData]],
                  sseLog := sseLog u @ [JStr (''Error parsing SSE event: '' @ err_message e)]\<rparr>))
         in case JSON_parse P jsonData of
              Inl e \<Rightarrow> caught e ui
            | Inr eventData \<Rightarrow>
                (let ui1 = (case get_prop P eventData ''message'' of
                              Inl e \<Rightarrow> ui\<lparr>render_errors := render_errors ui @ [e]\<rparr>
                            | Inr m \<Rightarrow>
                                ui\<lparr>sseLog := sseLog ui @ [or_else m (JSON_stringify P eventData)]\<rparr>)
                 in case get_prop P eventData ''status'' of
                      Inl e \<Rightarrow> caught e ui1
                    | Inr st \<Rightarrow>
                        if st = JStr ''success'' then
                          (case get_prop P eventData ''message'' of
                             Inl e \<Rightarrow> caught e ui1
                           | Inr m \<Rightarrow>
                               (Return,
                                ui1\<lparr>messages := messages ui1 @
                                       [(success, or_else m (JStr ''Fingerprint registered successfully!''))],
                                    isRegistering := False,
                                    fetchFingerprints_calls := fetchFingerprints_calls ui1 + 1,
                                    reader_cancels := reader_cancels ui1 + 1,
                                    timeouts := timeouts ui1 + 1\<rparr>))
                        else if st = JStr ''error'' then
                          (case get_prop P eventData ''message'' of
                             Inl e \<Rightarrow> caught e ui1
                           | Inr m \<Rightarrow>
                               (Continue,
                                ui1\<lparr>messages := messages ui1 @
                                       [(error, or_else m (JStr ''An error occurred during registration.''))],
                                    isRegistering := False\<rparr>))
                        else if st = JStr ''cancelled'' then
                          (case get_prop P eventData ''message'' of
                             Inl e \<Rightarrow> caught e ui1
                           | Inr m \<Rightarrow>
                               (Return,
                                ui1\<lparr>messages := messages ui1 @
                                       [(info, or_else m (JStr ''Registration was cancelled.''))],
                                    isRegistering := False,
                                    reader_cancels := reader_cancels ui1 + 1\<rparr>))
                        else (Continue, ui1))))"

text \<open>Line 149: the \<open>for\<close> loop over the complete lines.\<close>

fun process_lines ::
  "'d platform \<Rightarrow> fingerprint_list \<Rightarrow> string list \<Rightarrow> flow \<times> fingerprint_list" where
  "process_lines P ui [] = (Continue, ui)"
| "process_lines P ui (l # ls) =
     (case process_line P ui l of
        (Return, ui') \<Rightarrow> (Return, ui')
      | (Continue, ui') \<Rightarrow> process_lines P ui' ls)"

text \<open>Lines 145 to 186: \<open>reader.read()\<close> gave a chunk.\<close>

definition read_chunk ::
  "'d platform \<Rightarrow> 'd invocation \<Rightarrow> fingerprint_list \<Rightarrow> byte list
     \<Rightarrow> 'd invocation \<times> fingerprint_list" where
  "read_chunk P iv ui v =
     (case decode P (decoder iv) v of
        (decoded, d') \<Rightarrow>
          (let parts = split_nl (buffer iv @ decoded);
               inv1 = iv\<lparr>decoder := d', buffer := last parts\<rparr>
           in case process_lines P ui (butlast parts) of
                (Return, ui') \<Rightarrow> (inv1\<lparr>pc := Settled\<rparr>, finally_block iv ui')
              | (Continue, ui') \<Rightarrow> (inv1, ui')))"

text \<open>Lines 136 to 143: \<open>reader.read()\<close> gave \<open>done\<close>.\<close>

definition read_done :: "'d invocation \<Rightarrow> fingerprint_list \<Rightarrow> 'd invocation \<times> fingerprint_list" where
  "read_done iv ui =
     (let ui1 = ui\<lparr>sseLog := sseLog ui @ [JStr ''Registration stream ended.'']\<rparr>;
          ui2 = (if isRegistering_seen iv then
                   ui1\<lparr>messages := messages ui1 @
                          [(warning, JStr ''Registration process ended without a clear status.'')],
                       isRegistering := False\<rparr>
                 else ui1)
      in (iv\<lparr>pc := Settled\<rparr>, finally_block iv ui2))"

text \<open>
  Lines 292 to 301: the cancel button. The footer shows it only while
  \<open>isRegistering\<close> is true.
\<close>

definition cancel_click :: "fingerprint_list \<Rightarrow> fingerprint_list" where
  "cancel_click ui =
     (if isRegistering ui then
        (case abortControllerRef ui of
           Some c \<Rightarrow> ui\<lparr>aborted := aborted ui @ [c]\<rparr>
         | None \<Rightarrow> ui)
      else ui)"

text \<open>
  One event. A promise the run does not await settles without effect; so does every
  promise once the run has settled.
\<close>

fun step ::
  "'d platform \<Rightarrow> 'd invocation \<times> fingerprint_list \<Rightarrow> event
     \<Rightarrow> 'd invocation \<times> fingerprint_list" where
  "step P (iv, ui) CancelClicked = (iv, cancel_click ui)"
| "step P (iv, ui) (FetchSettled r) =
     (if pc iv \<noteq> AwaitFetch then (iv, ui)
      else
        (case r of
           Rejected e \<Rightarrow> (iv\<lparr>pc := Settled\<rparr>, finally_block iv (catch_block e ui))
         | Resolved resp \<Rightarrow>
             if \<not> ok resp then (iv\<lparr>pc := AwaitErrorBody (status resp)\<rparr>, ui)
             else if \<not> has_body resp then no_body iv ui
             else (iv\<lparr>pc := AwaitRead, buffer := [], decoder := decoder_new P\<rparr>, ui)))"
| "step P (iv, ui) (JsonSettled r) =
     (case pc iv of
        AwaitErrorBody code \<Rightarrow> error_response P code r iv ui
      | _ \<Rightarrow> (iv, ui))"
| "step P (iv, ui) (ReadSettled r) =
     (if pc iv \<noteq> AwaitRead then (iv, ui)
      else
        (case r of
           Rejected e \<Rightarrow> (iv\<lparr>pc := Settled\<rparr>, finally_block iv (catch_block e ui))
         | Resolved Done \<Rightarrow> read_done iv ui
         | Resolved (Chunk v) \<Rightarrow> read_chunk P iv ui v))"

definition run ::
  "'d platform \<Rightarrow> 'd invocation \<times> fingerprint_list \<Rightarrow> event list
     \<Rightarrow> 'd invocation \<times> fingerprint_list" where
  "run P s evs = foldl (step P) s evs"

text \<open>
  The state of the component when it is mounted (the initial values of \<open>useState\<close> and
  \<open>useRef\<close>), and when the add dialog has been opened (\<open>showAddModal\<close>).
\<close>

definition mounted :: fingerprint_list where
  "mounted =
     \<lparr>messages = [], console = [], loading = False, sseLog = [], isRegistering = False,
      isAddModalVisible = False, abortControllerRef = None, controllers = 0, aborted = [],
      fetches = [], fetchFingerprints_calls = 0, reader_cancels = 0, timeouts = 0,
      render_errors = []\<rparr>"

definition showAddModal :: "fingerprint_list \<Rightarrow> fingerprint_list" where
  "showAddModal ui =
     ui\<lparr>sseLog := [], isRegistering := False,
        aborted := (case abortControllerRef ui of Some c \<Rightarrow> aborted ui @ [c] | None \<Rightarrow> aborted ui),
        abortControllerRef := None,
        isAddModalVisible := True\<rparr>"

text \<open>Lines 162 to 166: the timer set on success fires.\<close>

definition autoclose :: "fingerprint_list \<Rightarrow> fingerprint_list" where
  "autoclose ui = ui\<lparr>isAddModalVisible := False, sseLog := [], timeouts := timeouts ui - 1\<rparr>"

text \<open>The promise a run awaits is rejected with \<open>e\<close>.\<close>

fun rejection :: "pc \<Rightarrow> js_error \<Rightarrow> event" where
  "rejection AwaitFetch e = FetchSettled (Rejected e)"
| "rejection (AwaitErrorBody code) e = JsonSettled (Rejected e)"
| "rejection AwaitRead e = ReadSettled (Rejected e)"
| "rejection Settled e = ReadSettled (Rejected e)"

text \<open>Lines 291 to 310: the buttons of the modal's footer.\<close>

datatype button = CancelOp | Close | Submit

definition footer :: "fingerprint_list \<Rightarrow> button list" where
  "footer ui = (if isRegistering ui then [CancelOp] else [Close, Submit])"

section \<open>The outcome of a registration, as the component shows it\<close>

text \<open>
  The component has no state variable for the outcome of a registration. It reports a
  success with \<open>messageApi.success\<close>, an error with \<open>messageApi.error\<close>, a cancellation
  with \<open>messageApi.info\<close>, and the end of the stream with the entry
  \<open>Registration stream ended.\<close> of the log. \<open>session_outcome n ui\<close> reads the outcome
  off a state \<open>ui\<close> whose run began when \<open>n\<close> messages had been shown: nothing while
  \<open>isRegistering\<close> holds, else the last of the run's success, error and info messages,
  else the end of the stream when that is the last entry of the log.
\<close>

datatype outcome = Success | Error | Cancelled | EndedWithoutResult

fun outcome_of :: "level \<Rightarrow> outcome option" where
  "outcome_of success = Some Success"
| "outcome_of error = Some Error"
| "outcome_of info = Some Cancelled"
| "outcome_of warning = None"

definition session_outcome :: "nat \<Rightarrow> fingerprint_list \<Rightarrow> outcome option" where
  "session_outcome n ui =
     (if isRegistering ui then None
      else
        (case filter (\<lambda>m. fst m \<noteq> warning) (drop n (messages ui)) of
           [] \<Rightarrow>
             (if sseLog ui \<noteq> [] \<and> last (sseLog ui) = JStr ''Registration stream ended.''
              then Some EndedWithoutResult else None)
         | m # ms \<Rightarrow> outcome_of (fst (last (m # ms)))))"

text \<open>
  The status of the event a line carries, when the line carries one: the line has the
  prefix, its payload parses, and the \<open>message\<close> of the parsed value can be read.
\<close>

definition event_status :: "'d platform \<Rightarrow> string \<Rightarrow> jsval option" where
  "event_status P line =
     (if take 6 line \<noteq> ''data: '' then None
      else
        (case JSON_parse P (drop 6 line) of
           Inl e \<Rightarrow> None
         | Inr eventData \<Rightarrow>
             (case get_prop P eventData ''message'' of
                Inl e \<Rightarrow> None
              | Inr m \<Rightarrow>
                  (case get_prop P eventData ''status'' of
                     Inl e \<Rightarrow> None
                   | Inr s \<Rightarrow> Some s))))"

text \<open>
  The payload of the line parses to a value whose \<open>message\<close> cannot be read (\<open>null\<close>):
  the function that line 154 queues throws when React runs it.
\<close>

definition unreadable :: "'d platform \<Rightarrow> string \<Rightarrow> bool" where
  "unreadable P line =
     (take 6 line = ''data: '' \<and>
      (case JSON_parse P (drop 6 line) of
         Inl e \<Rightarrow> False
       | Inr eventData \<Rightarrow>
           (case get_prop P eventData ''message'' of Inl e \<Rightarrow> True | Inr m \<Rightarrow> False)))"

text \<open>
  The log the dialog shows. When a queued function throws, the render throws; no
  component of the repository catches the error of a render, so React removes the
  component and nothing of its state is shown.
\<close>

definition shown_log :: "fingerprint_list \<Rightarrow> jsval list option" where
  "shown_log ui = (if render_errors ui = [] then Some (sseLog ui) else None)"

definition terminal :: "jsval option \<Rightarrow> bool" where
  "terminal s =
     (s = Some (JStr ''success'') \<or> s = Some (JStr ''error'') \<or> s = Some (JStr ''cancelled''))"

text \<open>
  The payload of an event line, parsed: \<open>{"status": s, "message": m}\<close>.
\<close>

definition enrollment_event :: "string \<Rightarrow> string \<Rightarrow> jsval" where
  "enrollment_event s m = JObj [(''status'', JStr s), (''message'', JStr m)]"

text \<open>The text of the lines \<open>ls\<close>, each ended by a newline.\<close>

definition terminated :: "string list \<Rightarrow> string" where
  "terminated ls = concat (map (\<lambda>l. l @ [CHR 0x0A]) ls)"

text \<open>A response that is ok and has a body to read.\<close>

definition streaming :: "response \<Rightarrow> bool" where
  "streaming resp = (ok resp \<and> has_body resp)"

text \<open>The events of a stream that delivers the chunks \<open>cs\<close>.\<close>

definition chunks :: "byte list list \<Rightarrow> event list" where
  "chunks cs = map (\<lambda>c. ReadSettled (Resolved (Chunk c))) cs"

text \<open>
  Two states of a run that no later event can tell apart: the same component state, and
  either the same locals or both runs settled.
\<close>

definition same_run ::
  "'d invocation \<times> fingerprint_list \<Rightarrow> 'd invocation \<times> fingerprint_list \<Rightarrow> bool" where
  "same_run s t =
     (snd s = snd t \<and> (fst s = fst t \<or> (pc (fst s) = Settled \<and> pc (fst t) = Settled)))"

section \<open>A platform to run the code on\<close>

text \<open>
  The theorems below hold for every platform. Their examples are evaluated on the
  platform \<open>browser\<close>, which does what a browser does on the inputs the examples use.
\<close>

text \<open>
  The UTF-8 decoder of the Encoding Standard, on text held as UTF-8: a complete
  well-formed sequence is passed on, an ill-formed one becomes U+FFFD and the byte that
  broke it is read again.
\<close>

record utf8_decoder =
  pending :: "byte list"
  needed :: nat
  lower :: byte
  upper :: byte

definition utf8_start :: utf8_decoder where
  "utf8_start = \<lparr>pending = [], needed = 0, lower = 0x80, upper = 0xBF\<rparr>"

definition emit :: "byte list \<Rightarrow> string" where
  "emit bs = map (\<lambda>b. char_of (unat b)) bs"

definition replacement :: string where
  "replacement = utf8 [239, 191, 189]"

definition utf8_lead :: "byte \<Rightarrow> string \<times> utf8_decoder" where
  "utf8_lead b =
     (if b \<le> 0x7F then (emit [b], utf8_start)
      else if 0xC2 \<le> b \<and> b \<le> 0xDF then
        ([], \<lparr>pending = [b], needed = 1, lower = 0x80, upper = 0xBF\<rparr>)
      else if 0xE0 \<le> b \<and> b \<le> 0xEF then
        ([], \<lparr>pending = [b], needed = 2,
              lower = (if b = 0xE0 then 0xA0 else 0x80),
              upper = (if b = 0xED then 0x9F else 0xBF)\<rparr>)
      else if 0xF0 \<le> b \<and> b \<le> 0xF4 then
        ([], \<lparr>pending = [b], needed = 3,
              lower = (if b = 0xF0 then 0x90 else 0x80),
              upper = (if b = 0xF4 then 0x8F else 0xBF)\<rparr>)
      else (replacement, utf8_start))"

definition utf8_step :: "utf8_decoder \<Rightarrow> byte \<Rightarrow> string \<times> utf8_decoder" where
  "utf8_step d b =
     (if needed d = 0 then utf8_lead b
      else if b < lower d \<or> upper d < b then
        (case utf8_lead b of (s, d') \<Rightarrow> (replacement @ s, d'))
      else if needed d = 1 then (emit (pending d @ [b]), utf8_start)
      else
        ([], \<lparr>pending = pending d @ [b], needed = needed d - 1, lower = 0x80, upper = 0xBF\<rparr>))"

text \<open>\<open>TextEncoder\<close>: the bytes of a text.\<close>

definition bytes_of :: "string \<Rightarrow> byte list" where
  "bytes_of s = map of_char s"

text \<open>
  \<open>JSON.parse\<close> on the payloads used below, where it agrees with the platform's; every
  other text is taken for a syntax error.
\<close>

definition parse_payload :: "string \<Rightarrow> js_error + jsval" where
  \<open>parse_payload s =
     (if s = ''{"status":"progress","message":"Place finger"}'' then
        Inr (enrollment_event ''progress'' ''Place finger'')
      else if s = ''{"status":"progress","message":"Place the same finger again"}'' then
        Inr (enrollment_event ''progress'' ''Place the same finger again'')
      else if s = ''{"status":"success","message":"Fingerprint stored"}'' then
        Inr (enrollment_event ''success'' ''Fingerprint stored'')
      else if s = ''null'' then Inr JNull
      else if s = ''{}'' then Inr (JObj [])
      else Inl \<lparr>err_name = ''SyntaxError'', err_message = ''Unexpected token''\<rparr>)\<close>

text \<open>\<open>JSON.stringify\<close> and the conversion to a string, for strings and flat objects of strings.\<close>

fun quoted :: "jsval \<Rightarrow> string" where
  \<open>quoted (JStr s) = ''"'' @ s @ ''"''\<close>
| \<open>quoted v = ''null''\<close>

fun fields :: "(string \<times> jsval) list \<Rightarrow> string" where
  \<open>fields [] = []\<close>
| \<open>fields [(k, v)] = ''"'' @ k @ ''":'' @ quoted v\<close>
| \<open>fields ((k, v) # kvs) = ''"'' @ k @ ''":'' @ quoted v @ '','' @ fields kvs\<close>

fun stringify :: "jsval \<Rightarrow> jsval" where
  "stringify JUndefined = JUndefined"
| "stringify (JObj kvs) = JStr (''{'' @ fields kvs @ ''}'')"
| "stringify v = JStr (quoted v)"

fun to_string :: "jsval \<Rightarrow> string" where
  "to_string (JStr s) = s"
| "to_string (JNum n) = n"
| "to_string JNull = ''null''"
| "to_string JUndefined = ''undefined''"
| "to_string (JBool b) = (if b then ''true'' else ''false'')"
| "to_string v = ''[object Object]''"

definition browser :: "utf8_decoder platform" where
  "browser =
     \<lparr>decoder_new = utf8_start, decode_step = utf8_step, JSON_parse = parse_payload,
      JSON_stringify = stringify, ToString = to_string,
      TypeError_reading = (\<lambda>k.
        \<lparr>err_name = ''TypeError'',
         err_message =
           ''Cannot read properties of null (reading '' @ [CHR 0x27] @ k @ [CHR 0x27] @ '')''\<rparr>)\<rparr>"

text \<open>Streams and states to run the code on.\<close>

definition ok_response :: response where
  "ok_response = \<lparr>ok = True, status = 200, has_body = True\<rparr>"

definition line_place :: string where
  \<open>line_place = ''data: {"status":"progress","message":"Place finger"}''\<close>

definition line_again :: string where
  \<open>line_again = ''data: {"status":"progress","message":"Place the same finger again"}''\<close>

definition line_stored :: string where
  \<open>line_stored = ''data: {"status":"success","message":"Fingerprint stored"}''\<close>

text \<open>Two event lines whose payloads are JSON texts, but no events.\<close>

definition line_null :: string where
  "line_null = ''data: null''"


definition opened :: fingerprint_list where
  "opened = showAddModal mounted"

text \<open>
  One stream, read in one chunk and read in three: an event line, then a comment line
  that ends in a two-byte character (\<open>C3 A9\<close>). The second reading is cut inside the
  event line and between the two bytes of the character.
\<close>

definition comment_line :: string where
  "comment_line = [CHR 0x3A, CHR 0x20, CHR 0xC3, CHR 0xA9]"

definition in_one_chunk :: "byte list list" where
  "in_one_chunk = [bytes_of (terminated [line_place, comment_line])]"

definition in_three_chunks :: "byte list list" where
  "in_three_chunks =
     [take 11 (bytes_of (terminated [line_place, comment_line])),
      take 45 (drop 11 (bytes_of (terminated [line_place, comment_line]))),
      drop 56 (bytes_of (terminated [line_place, comment_line]))]"

definition cut_line :: string where
  \<open>cut_line = ''data: {"status":"success","mess''\<close>

text \<open>A run for the label \<open>Ann\<close>, started from the opened dialog.\<close>

definition start_Ann :: "utf8_decoder invocation \<times> fingerprint_list" where
  "start_Ann = handleAddFingerprint browser initial_settings False ''Ann'' opened"

text \<open>Two progress events and a success event, in two chunks cut inside the first line.\<close>

definition three_events :: "byte list list" where
  "three_events =
     [bytes_of (take 30 (terminated [line_place, line_again, line_stored])),
      bytes_of (drop 30 (terminated [line_place, line_again, line_stored]))]"

text \<open>The event line \<open>line_place\<close> and its newline, in one chunk.\<close>

definition place_chunk :: event where
  "place_chunk = ReadSettled (Resolved (Chunk (bytes_of (terminated [line_place]))))"

text \<open>A state in which a registration is under way: its stream has given one event.\<close>

definition registering :: fingerprint_list where
  "registering = snd (run browser start_Ann [FetchSettled (Resolved ok_response), place_chunk])"

definition AbortError :: js_error where
  "AbortError = \<lparr>err_name = ''AbortError'', err_message = ''The user aborted a request.''\<rparr>"

text \<open>
  The monitoring panel showing \<open>disabled\<close>, the door panel showing \<open>locked\<close>, a response
  whose status is none of the values the panels know, and a failed request.
\<close>

definition monitoring_disabled :: monitoring_control where
  "monitoring_disabled =
     \<lparr>messages = [], console = [], loading = False, actionLoading = False,
      monitoringStatus = JStr ''disabled''\<rparr>"

definition door_locked :: door_control where
  "door_locked =
     \<lparr>messages = [], console = [], loading = False, actionLoading = False,
      doorStatus = JStr ''locked''\<rparr>"

definition standby_response :: jsval where
  "standby_response = JObj [(''status'', JStr ''standby'')]"

definition Unauthorized :: js_error where
  "Unauthorized =
     \<lparr>err_name = ''AxiosError'', err_message = ''Request failed with status code 401''\<rparr>"

text \<open>
  A session: the door status is fetched, the settings are saved with a new base address
  and token, the door is locked and a registration is started.
\<close>

definition session :: "user_action list" where
  "session =
     [Do FetchDoorStatus, Save ''http://192.168.1.100:80'' ''secret'', Do Lock,
      Do (AddFingerprint ''Ann'' 0)]"

section \<open>Splitting into lines, decoding, and the loop over the lines\<close>

lemma split_nl_nonempty: "split_nl s \<noteq> []"
  by (induction s) (auto split: list.splits)

lemma split_nl_no_newline: "CHR 0x0A \<notin> set s \<Longrightarrow> split_nl s = [s]"
  by (induction s) (auto split: list.splits)

lemma split_nl_parts: "l \<in> set (split_nl s) \<Longrightarrow> CHR 0x0A \<notin> set l"
  by (induction s arbitrary: l) (auto split: list.splits if_splits)

lemma split_nl_last: "CHR 0x0A \<notin> set (last (split_nl s))"
  using split_nl_parts [of "last (split_nl s)" s] split_nl_nonempty [of s] by simp

lemma split_nl_append:
  "split_nl (a @ b) = butlast (split_nl a) @ split_nl (last (split_nl a) @ b)"
proof (induction a)
  case Nil
  show ?case by simp
next
  case (Cons c a)
  obtain l ls where s: "split_nl a = l # ls"
    using split_nl_nonempty [of a] by (cases "split_nl a") auto
  show ?case
  proof (cases "c = CHR 0x0A")
    case True
    then show ?thesis using Cons s split_nl_nonempty [of a] by simp
  next
    case False
    show ?thesis
    proof (cases ls)
      case Nil
      with s False Cons show ?thesis
        using split_nl_nonempty [of "l @ b"] by (auto split: list.splits)
    next
      case (Cons l' ls')
      with s False Cons.IH show ?thesis by (auto split: list.splits)
    qed
  qed
qed

lemma decode_append:
  "decode P d (a @ b) =
     (case decode P d a of (s, d') \<Rightarrow> (case decode P d' b of (t, d'') \<Rightarrow> (s @ t, d'')))"
  by (induction a arbitrary: d) (auto split: prod.splits)

lemma process_lines_append:
  "process_lines P ui (ls @ ms) =
     (case process_lines P ui ls of
        (Return, ui') \<Rightarrow> (Return, ui')
      | (Continue, ui') \<Rightarrow> process_lines P ui' ms)"
  by (induction ls arbitrary: ui) (auto split: prod.splits flow.splits)

lemma run_Nil: "run P s [] = s"
  by (simp add: run_def)

lemma run_Cons: "run P s (e # es) = run P (step P s e) es"
  by (simp add: run_def)

lemma run_append: "run P s (es @ fs) = run P (run P s es) fs"
  by (simp add: run_def)

lemma finally_block_locals:
  "finally_block (iv\<lparr>decoder := d, buffer := b\<rparr>) ui = finally_block iv ui"
  by (simp add: finally_block_def)

lemma step_settled:
  "pc iv = Settled \<Longrightarrow>
   step P (iv, ui) e = (iv, if e = CancelClicked then cancel_click ui else ui)"
  by (cases e) auto

lemma same_run_refl: "same_run s s"
  by (simp add: same_run_def)

lemma same_run_step: "same_run s t \<Longrightarrow> same_run (step P s e) (step P t e)"
proof -
  assume h: "same_run s t"
  obtain iv ui where s: "s = (iv, ui)" by (cases s)
  obtain iv' ui' where t: "t = (iv', ui')" by (cases t)
  from h s t have u: "ui' = ui" by (simp add: same_run_def)
  from h s t consider "iv = iv'" | "pc iv = Settled" "pc iv' = Settled"
    by (auto simp: same_run_def)
  then show ?thesis
  proof cases
    case 1
    with s t u show ?thesis by (simp add: same_run_refl)
  next
    case 2
    with s t u show ?thesis by (simp add: step_settled same_run_def)
  qed
qed

lemma same_run_run: "same_run s t \<Longrightarrow> same_run (run P s es) (run P t es)"
  by (induction es arbitrary: s t) (auto simp: run_Nil run_Cons same_run_step)

lemma run_chunks_settled: "pc iv = Settled \<Longrightarrow> run P (iv, ui) (chunks cs) = (iv, ui)"
  by (induction cs) (auto simp: chunks_def run_Nil run_Cons)

subsection \<open>One chunk\<close>

lemma read_chunk_Continue:
  assumes "decode P (decoder iv) v = (t, d')"
    and "process_lines P ui (butlast (split_nl (buffer iv @ t))) = (Continue, ui')"
  shows "read_chunk P iv ui v = (iv\<lparr>decoder := d', buffer := last (split_nl (buffer iv @ t))\<rparr>, ui')"
  using assms by (simp add: read_chunk_def Let_def)

lemma read_chunk_Return:
  assumes "decode P (decoder iv) v = (t, d')"
    and "process_lines P ui (butlast (split_nl (buffer iv @ t))) = (Return, ui')"
  shows "read_chunk P iv ui v =
    (iv\<lparr>decoder := d', buffer := last (split_nl (buffer iv @ t)), pc := Settled\<rparr>, finally_block iv ui')"
  using assms by (simp add: read_chunk_def Let_def)

lemma butlast_split_nl_append:
  "butlast (split_nl (a @ b)) = butlast (split_nl a) @ butlast (split_nl (last (split_nl a) @ b))"
  by (simp add: split_nl_append [of a b] butlast_append split_nl_nonempty)

lemma last_split_nl_append:
  "last (split_nl (a @ b)) = last (split_nl (last (split_nl a) @ b))"
  by (simp add: split_nl_append [of a b] split_nl_nonempty)

lemma read_chunk_append:
  "same_run (read_chunk P iv ui (a @ b))
     (case read_chunk P iv ui a of
        (iv1, ui1) \<Rightarrow> if pc iv1 = Settled then (iv1, ui1) else read_chunk P iv1 ui1 b)"
  if "pc iv = AwaitRead"
proof -
  obtain t d' where da: "decode P (decoder iv) a = (t, d')" by (cases "decode P (decoder iv) a")
  obtain t2 d2 where db: "decode P d' b = (t2, d2)" by (cases "decode P d' b")
  have dab: "decode P (decoder iv) (a @ b) = (t @ t2, d2)"
    by (simp add: decode_append da db)
  let ?p1 = "split_nl (buffer iv @ t)"
  let ?p2 = "split_nl (last ?p1 @ t2)"
  have bl: "butlast (split_nl (buffer iv @ t @ t2)) = butlast ?p1 @ butlast ?p2"
    using butlast_split_nl_append [of "buffer iv @ t" t2] by simp
  have la: "last (split_nl (buffer iv @ t @ t2)) = last ?p2"
    using last_split_nl_append [of "buffer iv @ t" t2] by simp
  obtain f ui1 where p1: "process_lines P ui (butlast ?p1) = (f, ui1)"
    by (cases "process_lines P ui (butlast ?p1)")
  show ?thesis
  proof (cases f)
    case Return
    have "process_lines P ui (butlast (split_nl (buffer iv @ t @ t2))) = (Return, ui1)"
      using p1 Return by (simp add: bl process_lines_append)
    then have w: "read_chunk P iv ui (a @ b) =
      (iv\<lparr>decoder := d2, buffer := last (split_nl (buffer iv @ (t @ t2))), pc := Settled\<rparr>,
       finally_block iv ui1)"
      using read_chunk_Return [OF dab] by simp
    have "read_chunk P iv ui a =
      (iv\<lparr>decoder := d', buffer := last ?p1, pc := Settled\<rparr>, finally_block iv ui1)"
      using read_chunk_Return [OF da] p1 Return by simp
    with w show ?thesis by (simp add: same_run_def)
  next
    case Continue
    let ?iv1 = "iv\<lparr>decoder := d', buffer := last ?p1\<rparr>"
    have r1: "read_chunk P iv ui a = (?iv1, ui1)"
      using read_chunk_Continue [OF da] p1 Continue by simp
    obtain g ui2 where p2: "process_lines P ui1 (butlast ?p2) = (g, ui2)"
      by (cases "process_lines P ui1 (butlast ?p2)")
    have pw: "process_lines P ui (butlast (split_nl (buffer iv @ t @ t2))) = (g, ui2)"
      using p1 Continue p2 by (simp add: bl process_lines_append)
    have db1: "decode P (decoder ?iv1) b = (t2, d2)" using db by simp
    have "read_chunk P iv ui (a @ b) = read_chunk P ?iv1 ui1 b"
    proof (cases g)
      case Return
      show ?thesis
        using read_chunk_Return [OF dab] read_chunk_Return [OF db1] pw p2 Return la
        by (simp add: finally_block_def)
    next
      case Continue
      show ?thesis
        using read_chunk_Continue [OF dab] read_chunk_Continue [OF db1] pw p2 Continue la
        by simp
    qed
    with r1 that show ?thesis by (simp add: same_run_refl)
  qed
qed

lemma read_chunk_cases:
  obtains (Continue) t d' ui' where
      "read_chunk P iv ui v = (iv\<lparr>decoder := d', buffer := last (split_nl (buffer iv @ t))\<rparr>, ui')"
    | (Return) t d' ui' where
      "read_chunk P iv ui v =
         (iv\<lparr>decoder := d', buffer := last (split_nl (buffer iv @ t)), pc := Settled\<rparr>,
          finally_block iv ui')"
proof -
  obtain t d' where d: "decode P (decoder iv) v = (t, d')" by (cases "decode P (decoder iv) v")
  obtain f ui' where p: "process_lines P ui (butlast (split_nl (buffer iv @ t))) = (f, ui')"
    by (cases "process_lines P ui (butlast (split_nl (buffer iv @ t)))")
  show thesis
  proof (cases f)
    case Continue
    then show ?thesis using read_chunk_Continue [OF d] p that(1) by simp
  next
    case Return
    then show ?thesis using read_chunk_Return [OF d] p that(2) by simp
  qed
qed

lemma read_chunk_pc:
  "pc iv = AwaitRead \<Longrightarrow> read_chunk P iv ui v = (iv1, ui1) \<Longrightarrow> pc iv1 = AwaitRead \<or> pc iv1 = Settled"
  by (cases rule: read_chunk_cases [of P iv ui v]) auto

lemma read_chunk_buffer:
  "read_chunk P iv ui v = (iv1, ui1) \<Longrightarrow> CHR 0x0A \<notin> set (buffer iv1)"
  by (cases rule: read_chunk_cases [of P iv ui v]) (auto simp: split_nl_last)

lemma read_chunk_empty:
  "CHR 0x0A \<notin> set (buffer iv) \<Longrightarrow> read_chunk P iv ui [] = (iv, ui)"
  by (simp add: read_chunk_def split_nl_no_newline)

lemma same_run_trans: "same_run s t \<Longrightarrow> same_run t u \<Longrightarrow> same_run s u"
  by (auto simp: same_run_def)

lemma same_run_sym: "same_run s t \<Longrightarrow> same_run t s"
  by (auto simp: same_run_def)

lemma run_chunks_whole:
  "pc iv = AwaitRead \<Longrightarrow> CHR 0x0A \<notin> set (buffer iv) \<Longrightarrow>
   same_run (run P (iv, ui) (chunks cs)) (read_chunk P iv ui (concat cs))"
proof (induction cs arbitrary: iv ui)
  case Nil
  then show ?case by (simp add: chunks_def run_Nil read_chunk_empty same_run_refl)
next
  case (Cons c cs)
  obtain iv1 ui1 where r: "read_chunk P iv ui c = (iv1, ui1)" by (cases "read_chunk P iv ui c")
  have st: "run P (iv, ui) (chunks (c # cs)) = run P (iv1, ui1) (chunks cs)"
    using Cons.prems r by (simp add: chunks_def run_Cons)
  have ap: "same_run (read_chunk P iv ui (c @ concat cs))
     (if pc iv1 = Settled then (iv1, ui1) else read_chunk P iv1 ui1 (concat cs))"
    using read_chunk_append [OF Cons.prems(1), of P ui c "concat cs"] r by simp
  show ?case
  proof (cases "pc iv1 = Settled")
    case True
    with st ap show ?thesis by (simp add: run_chunks_settled same_run_sym)
  next
    case False
    then have "pc iv1 = AwaitRead" using read_chunk_pc [OF Cons.prems(1) r] by simp
    then have "same_run (run P (iv1, ui1) (chunks cs)) (read_chunk P iv1 ui1 (concat cs))"
      using Cons.IH read_chunk_buffer [OF r] by simp
    then have "same_run (run P (iv1, ui1) (chunks cs)) (read_chunk P iv ui (c @ concat cs))"
      using ap False same_run_trans [OF _ same_run_sym] by simp
    with st show ?thesis by simp
  qed
qed

lemma chunk_boundaries:
  assumes "pc iv = AwaitRead" and "CHR 0x0A \<notin> set (buffer iv)" and "concat cs = concat cs'"
  shows "same_run (run P (iv, ui) (chunks cs @ es)) (run P (iv, ui) (chunks cs' @ es))"
proof -
  have "same_run (run P (iv, ui) (chunks cs)) (read_chunk P iv ui (concat cs))"
    by (rule run_chunks_whole [OF assms(1,2)])
  moreover have "same_run (read_chunk P iv ui (concat cs)) (run P (iv, ui) (chunks cs'))"
    unfolding assms(3) by (rule same_run_sym [OF run_chunks_whole [OF assms(1,2)]])
  ultimately have "same_run (run P (iv, ui) (chunks cs)) (run P (iv, ui) (chunks cs'))"
    by (rule same_run_trans)
  then show ?thesis by (simp add: run_append same_run_run)
qed

lemma run_chunks_not_reading: "pc iv \<noteq> AwaitRead \<Longrightarrow> run P (iv, ui) (chunks cs) = (iv, ui)"
  by (induction cs) (auto simp: chunks_def run_Nil run_Cons)

lemma handleAddFingerprint_pc: "pc (fst (handleAddFingerprint P now seen name ui)) = AwaitFetch"
  by (simp add: handleAddFingerprint_def Let_def)

lemma handleAddFingerprint_buffer: "buffer (fst (handleAddFingerprint P now seen name ui)) = []"
  by (simp add: handleAddFingerprint_def Let_def)

lemma step_fetch_buffer:
  "pc iv = AwaitFetch \<Longrightarrow> pc (fst (step P (iv, ui) (FetchSettled r))) = AwaitRead \<Longrightarrow>
   buffer (fst (step P (iv, ui) (FetchSettled r))) = []"
  by (cases r) (auto simp: no_body_def split: if_splits)

subsection \<open>Lines that carry no terminal event\<close>

lemma split_nl_terminated:
  "\<forall>l \<in> set ls. CHR 0x0A \<notin> set l \<Longrightarrow> CHR 0x0A \<notin> set partial \<Longrightarrow>
   split_nl (terminated ls @ partial) = ls @ [partial]"
proof (induction ls)
  case Nil
  then show ?case by (simp add: terminated_def split_nl_no_newline)
next
  case (Cons l ls)
  have "split_nl (l @ CHR 0x0A # r) = l # split_nl r" if "CHR 0x0A \<notin> set l" for l r
    using that by (induction l) (auto split: list.splits)
  then show ?case using Cons by (simp add: terminated_def)
qed

lemma get_prop_event:
  "get_prop P (enrollment_event s m) ''message'' = Inr (JStr m)"
  "get_prop P (enrollment_event s m) ''status'' = Inr (JStr s)"
  by (simp_all add: enrollment_event_def)

lemma get_prop_status:
  "get_prop P ev ''message'' = Inr m \<Longrightarrow> \<exists>s. get_prop P ev ''status'' = Inr s"
  by (cases ev) auto

lemma process_line_nonterminal:
  assumes "\<not> terminal (event_status P line)" and "\<not> unreadable P line"
  shows "\<exists>es cs. process_line P ui line =
           (Continue, ui\<lparr>sseLog := sseLog ui @ es, console := console ui @ cs\<rparr>)"
proof (cases "take 6 line = ''data: ''")
  case False
  then have "process_line P ui line = (Continue, ui\<lparr>sseLog := sseLog ui @ [], console := console ui @ []\<rparr>)"
    by (simp add: process_line_def)
  then show ?thesis by blast
next
  case pre: True
  show ?thesis
  proof (cases "JSON_parse P (drop 6 line)")
    case (Inl e)
    then have "process_line P ui line =
      (Continue, ui\<lparr>sseLog := sseLog ui @ [JStr (''Error parsing SSE event: '' @ err_message e)],
                    console := console ui @ [[CStr ''Error parsing SSE JSON:'', CErr e, CStr (drop 6 line)]]\<rparr>)"
      using pre by (simp add: process_line_def)
    then show ?thesis by blast
  next
    case (Inr ev)
    show ?thesis
    proof (cases "get_prop P ev ''message''")
      case (Inl e)
      then have "unreadable P line" using pre Inr by (simp add: unreadable_def)
      then show ?thesis using assms(2) by simp
    next
      case m: (Inr m)
      obtain s where s: "get_prop P ev ''status'' = Inr s"
        using get_prop_status [OF m] by blast
      have "event_status P line = Some s"
        using pre Inr m s by (simp add: event_status_def)
      with assms(1) have "s \<noteq> JStr ''success''" "s \<noteq> JStr ''error''" "s \<noteq> JStr ''cancelled''"
        by (auto simp: terminal_def)
      then have "process_line P ui line =
        (Continue, ui\<lparr>sseLog := sseLog ui @ [or_else m (JSON_stringify P ev)], console := console ui @ []\<rparr>)"
        using pre Inr m s by (simp add: process_line_def Let_def)
      then show ?thesis by blast
    qed
  qed
qed

lemma process_lines_nonterminal:
  "\<forall>l \<in> set ls. \<not> terminal (event_status P l) \<Longrightarrow> \<forall>l \<in> set ls. \<not> unreadable P l \<Longrightarrow>
   \<exists>es cs. process_lines P ui ls =
     (Continue, ui\<lparr>sseLog := sseLog ui @ es, console := console ui @ cs\<rparr>)"
proof (induction ls arbitrary: ui)
  case Nil
  have "process_lines P ui [] = (Continue, ui\<lparr>sseLog := sseLog ui @ [], console := console ui @ []\<rparr>)"
    by simp
  then show ?case by blast
next
  case (Cons l ls)
  obtain es cs where 1: "process_line P ui l =
      (Continue, ui\<lparr>sseLog := sseLog ui @ es, console := console ui @ cs\<rparr>)"
    using process_line_nonterminal [of P l ui] Cons.prems by auto
  let ?u = "ui\<lparr>sseLog := sseLog ui @ es, console := console ui @ cs\<rparr>"
  obtain es' cs' where 2: "process_lines P ?u ls =
      (Continue, ?u\<lparr>sseLog := sseLog ?u @ es', console := console ?u @ cs'\<rparr>)"
    using Cons.IH [of ?u] Cons.prems by auto
  have "process_lines P ui (l # ls) =
      (Continue, ui\<lparr>sseLog := sseLog ui @ (es @ es'), console := console ui @ (cs @ cs')\<rparr>)"
    using 1 2 by simp
  then show ?case by blast
qed

subsection \<open>A whole stream, from the start of the run\<close>

lemma run_stream:
  assumes "streaming resp"
    and "handleAddFingerprint P now seen name ui = (iv0, ui0)"
  shows "same_run (run P (iv0, ui0) (FetchSettled (Resolved resp) # chunks cs))
     (read_chunk P (iv0\<lparr>pc := AwaitRead\<rparr>) ui0 (concat cs))"
proof -
  have iv0: "pc iv0 = AwaitFetch" "buffer iv0 = []" "decoder iv0 = decoder_new P"
    using assms(2) by (auto simp: handleAddFingerprint_def Let_def)
  then have "iv0\<lparr>pc := AwaitRead, buffer := [], decoder := decoder_new P\<rparr> = iv0\<lparr>pc := AwaitRead\<rparr>"
    by simp
  then have "step P (iv0, ui0) (FetchSettled (Resolved resp)) = (iv0\<lparr>pc := AwaitRead\<rparr>, ui0)"
    using assms(1) iv0 by (simp add: streaming_def)
  then show ?thesis
    using run_chunks_whole [of "iv0\<lparr>pc := AwaitRead\<rparr>" P ui0 cs] iv0 by (simp add: run_Cons)
qed

lemma run_stream_Continue:
  assumes "streaming resp"
    and "handleAddFingerprint P now seen name ui = (iv0, ui0)"
    and "decode P (decoder_new P) (concat cs) = (t, d')"
    and "process_lines P ui0 (butlast (split_nl t)) = (Continue, u)"
  shows "run P (iv0, ui0) (FetchSettled (Resolved resp) # chunks cs) =
     (iv0\<lparr>pc := AwaitRead, decoder := d', buffer := last (split_nl t)\<rparr>, u)"
proof -
  have iv0: "pc iv0 = AwaitFetch" "buffer iv0 = []" "decoder iv0 = decoder_new P"
    using assms(2) by (auto simp: handleAddFingerprint_def Let_def)
  have "read_chunk P (iv0\<lparr>pc := AwaitRead\<rparr>) ui0 (concat cs) =
     (iv0\<lparr>pc := AwaitRead, decoder := d', buffer := last (split_nl t)\<rparr>, u)"
    using read_chunk_Continue [of P "iv0\<lparr>pc := AwaitRead\<rparr>" "concat cs" t d' ui0 u] assms(3,4) iv0
    by simp
  then show ?thesis
    using run_stream [OF assms(1,2), of cs] by (auto simp: same_run_def prod_eq_iff)
qed

lemma run_stream_Return:
  assumes "streaming resp"
    and "handleAddFingerprint P now seen name ui = (iv0, ui0)"
    and "decode P (decoder_new P) (concat cs) = (t, d')"
    and "process_lines P ui0 (butlast (split_nl t)) = (Return, u)"
  shows "snd (run P (iv0, ui0) (FetchSettled (Resolved resp) # chunks cs)) = finally_block iv0 u"
    and "pc (fst (run P (iv0, ui0) (FetchSettled (Resolved resp) # chunks cs))) = Settled"
proof -
  have iv0: "pc iv0 = AwaitFetch" "buffer iv0 = []" "decoder iv0 = decoder_new P"
    using assms(2) by (auto simp: handleAddFingerprint_def Let_def)
  have "read_chunk P (iv0\<lparr>pc := AwaitRead\<rparr>) ui0 (concat cs) =
     (iv0\<lparr>pc := AwaitRead, decoder := d', buffer := last (split_nl t), pc := Settled\<rparr>,
      finally_block (iv0\<lparr>pc := AwaitRead\<rparr>) u)"
    using read_chunk_Return [of P "iv0\<lparr>pc := AwaitRead\<rparr>" "concat cs" t d' ui0 u] assms(3,4) iv0
    by simp
  then show "snd (run P (iv0, ui0) (FetchSettled (Resolved resp) # chunks cs)) = finally_block iv0 u"
    and "pc (fst (run P (iv0, ui0) (FetchSettled (Resolved resp) # chunks cs))) = Settled"
    using run_stream [OF assms(1,2), of cs] by (auto simp: same_run_def finally_block_def)
qed

subsection \<open>The blocks of the function, and the platform used in the examples\<close>

lemma run_settled_idle: "pc iv = Settled \<Longrightarrow> \<not> isRegistering ui \<Longrightarrow> run P (iv, ui) es = (iv, ui)"
  by (induction es) (auto simp: run_Nil run_Cons step_settled cancel_click_def)

lemma read_done_eq:
  "read_done iv u =
     (iv\<lparr>pc := Settled\<rparr>,
      u\<lparr>sseLog := sseLog u @ [JStr ''Registration stream ended.''],
        messages := messages u @
          (if isRegistering_seen iv
           then [(warning, JStr ''Registration process ended without a clear status.'')] else []),
        isRegistering := False,
        abortControllerRef :=
          (if abortControllerRef u = Some (signal iv) then None else abortControllerRef u)\<rparr>)"
  by (simp add: read_done_def finally_block_def Let_def)

lemma handleAddFingerprint_eq:
  "handleAddFingerprint P now seen name ui =
     (\<lparr>pc = AwaitFetch, signal = controllers ui, isRegistering_seen = seen, buffer = [],
       decoder = decoder_new P\<rparr>,
      ui\<lparr>isRegistering := True, sseLog := [starting_entry name],
         abortControllerRef := Some (controllers ui), controllers := controllers ui + 1,
         fetches := fetches ui @ [add_fingerprint_request P now name (controllers ui)]\<rparr>)"
  by (simp add: handleAddFingerprint_def Let_def)

lemma unat_of_char: "unat (of_char c :: byte) = of_char c"
proof -
  have "(of_char c :: byte) = of_nat (of_char c)" by (simp add: of_nat_of_char)
  then have "unat (of_char c :: byte) = (of_char c :: nat) mod 2 ^ LENGTH(8)"
    by (simp only: unat_of_nat)
  then show ?thesis by simp
qed

lemma emit_of_char: "emit [of_char c] = [c]"
  by (simp add: emit_def unat_of_char)

lemma utf8_step_ascii:
  "of_char c \<le> (127 :: nat) \<Longrightarrow> utf8_step utf8_start (of_char c) = ([c], utf8_start)"
proof -
  assume a: "of_char c \<le> (127 :: nat)"
  have "(of_char c :: byte) \<le> 0x7F"
    using a by (simp add: word_le_nat_alt unat_of_char)
  then show ?thesis
    by (simp add: utf8_step_def utf8_lead_def utf8_start_def emit_of_char)
qed

lemma decode_browser_ascii:
  "\<forall>c \<in> set s. of_char c \<le> (127 :: nat) \<Longrightarrow>
   decode browser utf8_start (bytes_of s) = (s, utf8_start)"
  by (induction s) (simp_all add: bytes_of_def browser_def utf8_step_ascii)

lemma browser_fields:
  "decoder_new browser = utf8_start" "JSON_parse browser = parse_payload"
  "JSON_stringify browser = stringify"
  by (simp_all add: browser_def)

lemma process_line_progress:
  assumes "JSON_parse P p = Inr (enrollment_event ''progress'' m)"
  shows "process_line P ui (''data: '' @ p) =
    (Continue, ui\<lparr>sseLog := sseLog ui @
       [or_else (JStr m) (JSON_stringify P (enrollment_event ''progress'' m))]\<rparr>)"
  using assms by (simp add: process_line_def get_prop_event Let_def)

lemma process_line_success:
  assumes "JSON_parse P p = Inr (enrollment_event ''success'' m)"
  shows "process_line P ui (''data: '' @ p) =
    (Return,
     ui\<lparr>sseLog := sseLog ui @ [or_else (JStr m) (JSON_stringify P (enrollment_event ''success'' m))],
        messages := messages ui @ [(success, or_else (JStr m) (JStr ''Fingerprint registered successfully!''))],
        isRegistering := False,
        fetchFingerprints_calls := fetchFingerprints_calls ui + 1,
        reader_cancels := reader_cancels ui + 1,
        timeouts := timeouts ui + 1\<rparr>)"
  using assms by (simp add: process_line_def get_prop_event Let_def)

lemma parse_place: \<open>parse_payload (drop 6 line_place) = Inr (enrollment_event ''progress'' ''Place finger'')\<close>
  by (simp add: parse_payload_def line_place_def)

lemma line_place_split: "line_place = ''data: '' @ drop 6 line_place"
  by (simp add: line_place_def)

lemma process_line_place:
  "process_line browser ui line_place = (Continue, ui\<lparr>sseLog := sseLog ui @ [JStr ''Place finger'']\<rparr>)"
proof -
  have "process_line browser ui (''data: '' @ drop 6 line_place) =
     (Continue, ui\<lparr>sseLog := sseLog ui @ [JStr ''Place finger'']\<rparr>)"
    using process_line_progress [of browser "drop 6 line_place" "''Place finger''" ui] parse_place
    by (simp add: browser_fields or_else_def)
  then show ?thesis using line_place_split by simp
qed

lemma ascii_place: "\<forall>c \<in> set line_place. of_char c \<le> (127 :: nat)"
  by (simp add: line_place_def)

lemma nl_place: "CHR 0x0A \<notin> set line_place"
  by (simp add: line_place_def)

lemma ascii_cut: "\<forall>c \<in> set cut_line. of_char c \<le> (127 :: nat)"
  by (simp add: cut_line_def)

lemma nl_cut: "CHR 0x0A \<notin> set cut_line"
  by (simp add: cut_line_def)

lemma streaming_ok: "streaming ok_response"
  by (simp add: streaming_def ok_response_def)

lemma decode_cut:
  "decode browser (decoder_new browser) (concat [bytes_of (terminated [line_place] @ cut_line)]) =
     (terminated [line_place] @ cut_line, utf8_start)"
proof -
  have "\<forall>c \<in> set (terminated [line_place] @ cut_line). of_char c \<le> (127 :: nat)"
    using ascii_place ascii_cut by (auto simp: terminated_def)
  then show ?thesis
    using decode_browser_ascii [of "terminated [line_place] @ cut_line"] by (simp add: browser_fields)
qed

lemma not_terminal_place: "\<not> terminal (event_status browser line_place)"
  using parse_place
  by (simp add: event_status_def terminal_def browser_fields get_prop_event line_place_def)

lemma decode_place:
  "decode browser (decoder_new browser) (concat [bytes_of (terminated [line_place])]) =
     (terminated [line_place], utf8_start)"
proof -
  have "\<forall>c \<in> set (terminated [line_place]). of_char c \<le> (127 :: nat)"
    using ascii_place by (auto simp: terminated_def)
  then show ?thesis
    using decode_browser_ascii [of "terminated [line_place]"] by (simp add: browser_fields)
qed

lemma lines_place: "butlast (split_nl (terminated [line_place])) = [line_place]"
  using split_nl_terminated [of "[line_place]" "[]"] nl_place by simp


subsection \<open>Three events, and what a chunk does not read\<close>

lemma finally_block_eq:
  "finally_block iv u =
     u\<lparr>isRegistering := False,
       abortControllerRef := (if abortControllerRef u = Some (signal iv) then None else abortControllerRef u)\<rparr>"
  by (simp add: finally_block_def)

lemma run_two_progress_success:
  fixes now :: settings and seen :: bool and name :: string and ui :: fingerprint_list
    and es :: "event list"
  assumes "streaming resp"
    and "decode P (decoder_new P) (concat cs) =
           (terminated [''data: '' @ p1, ''data: '' @ p2, ''data: '' @ p3], d')"
    and "CHR 0x0A \<notin> set p1" and "CHR 0x0A \<notin> set p2" and "CHR 0x0A \<notin> set p3"
    and "JSON_parse P p1 = Inr (enrollment_event ''progress'' m1)"
    and "JSON_parse P p2 = Inr (enrollment_event ''progress'' m2)"
    and "JSON_parse P p3 = Inr (enrollment_event ''success'' m3)"
  defines "final \<equiv> run P (handleAddFingerprint P now seen name ui)
     (FetchSettled (Resolved resp) # chunks cs @ es)"
  shows "sseLog (snd final) =
           [starting_entry name,
            or_else (JStr m1) (JSON_stringify P (enrollment_event ''progress'' m1)),
            or_else (JStr m2) (JSON_stringify P (enrollment_event ''progress'' m2)),
            or_else (JStr m3) (JSON_stringify P (enrollment_event ''success'' m3))]
       \<and> length (sseLog (snd final)) = 4
       \<and> messages (snd final) = messages ui @
            [(success, or_else (JStr m3) (JStr ''Fingerprint registered successfully!''))]
       \<and> pc (fst final) = Settled
       \<and> \<not> isRegistering (snd final)
       \<and> reader_cancels (snd final) = reader_cancels ui + 1
       \<and> fetchFingerprints_calls (snd final) = fetchFingerprints_calls ui + 1
       \<and> timeouts (snd final) = timeouts ui + 1
       \<and> session_outcome (length (messages ui)) (snd final) = Some Success"
proof -
  let ?iv0 = "fst (handleAddFingerprint P now seen name ui)"
  let ?ui0 = "snd (handleAddFingerprint P now seen name ui)"
  let ?ls = "[''data: '' @ p1, ''data: '' @ p2, ''data: '' @ p3]"
  have h: "handleAddFingerprint P now seen name ui = (?iv0, ?ui0)" by simp
  have sp: "butlast (split_nl (terminated ?ls)) = ?ls"
    using split_nl_terminated [of ?ls "[]"] assms(3,4,5) by simp
  let ?e1 = "or_else (JStr m1) (JSON_stringify P (enrollment_event ''progress'' m1))"
  let ?e2 = "or_else (JStr m2) (JSON_stringify P (enrollment_event ''progress'' m2))"
  let ?e3 = "or_else (JStr m3) (JSON_stringify P (enrollment_event ''success'' m3))"
  let ?u1 = "?ui0\<lparr>sseLog := sseLog ?ui0 @ [?e1]\<rparr>"
  let ?u2 = "?u1\<lparr>sseLog := sseLog ?u1 @ [?e2]\<rparr>"
  define u where "u = ?u2\<lparr>sseLog := sseLog ?u2 @ [?e3],
        messages := messages ?u2 @ [(success, or_else (JStr m3) (JStr ''Fingerprint registered successfully!''))],
        isRegistering := False,
        fetchFingerprints_calls := fetchFingerprints_calls ?u2 + 1,
        reader_cancels := reader_cancels ?u2 + 1,
        timeouts := timeouts ?u2 + 1\<rparr>"
  have a1: "process_line P ?ui0 (''data: '' @ p1) = (Continue, ?u1)"
    by (rule process_line_progress [OF assms(6)])
  have a2: "process_line P ?u1 (''data: '' @ p2) = (Continue, ?u2)"
    by (rule process_line_progress [OF assms(7)])
  have a3: "process_line P ?u2 (''data: '' @ p3) = (Return, u)"
    unfolding u_def by (rule process_line_success [OF assms(8)])
  have p: "process_lines P ?ui0 ?ls = (Return, u)"
    by (simp only: process_lines.simps a1 a2 a3 prod.case flow.case)
  let ?s = "run P (?iv0, ?ui0) (FetchSettled (Resolved resp) # chunks cs)"
  have r: "snd ?s = finally_block ?iv0 u" "pc (fst ?s) = Settled"
    using run_stream_Return [OF assms(1) h assms(2)] p sp by simp_all
  have "\<not> isRegistering (snd ?s)" using r(1) by (simp add: finally_block_eq)
  then have "run P ?s es = ?s"
    using run_settled_idle [of "fst ?s" "snd ?s" P es] r(2) by simp
  then have f: "final = ?s"
    using run_append [of P "(?iv0, ?ui0)" "FetchSettled (Resolved resp) # chunks cs" es]
    by (simp add: final_def)
  have 1: "sseLog (snd final) =
           [starting_entry name,
            or_else (JStr m1) (JSON_stringify P (enrollment_event ''progress'' m1)),
            or_else (JStr m2) (JSON_stringify P (enrollment_event ''progress'' m2)),
            or_else (JStr m3) (JSON_stringify P (enrollment_event ''success'' m3))]"
    "messages (snd final) = messages ui @
            [(success, or_else (JStr m3) (JStr ''Fingerprint registered successfully!''))]"
    "pc (fst final) = Settled" "\<not> isRegistering (snd final)"
    "reader_cancels (snd final) = reader_cancels ui + 1"
    "fetchFingerprints_calls (snd final) = fetchFingerprints_calls ui + 1"
    "timeouts (snd final) = timeouts ui + 1"
    unfolding f using r by (simp_all add: u_def finally_block_eq handleAddFingerprint_eq)
  have "session_outcome (length (messages ui)) (snd final) = Some Success"
    using 1(2,4) by (simp add: session_outcome_def)
  with 1 show ?thesis by simp
qed

lemma parse_again:
  \<open>parse_payload (drop 6 line_again) = Inr (enrollment_event ''progress'' ''Place the same finger again'')\<close>
  by (simp add: parse_payload_def line_again_def)

lemma parse_stored:
  \<open>parse_payload (drop 6 line_stored) = Inr (enrollment_event ''success'' ''Fingerprint stored'')\<close>
  by (simp add: parse_payload_def line_stored_def)

lemma sample_lines_split:
  "line_again = ''data: '' @ drop 6 line_again" "line_stored = ''data: '' @ drop 6 line_stored"
  by (simp_all add: line_again_def line_stored_def)

lemma sample_lines_ascii:
  "\<forall>c \<in> set line_again. of_char c \<le> (127 :: nat)" "\<forall>c \<in> set line_stored. of_char c \<le> (127 :: nat)"
  by (simp_all add: line_again_def line_stored_def)

lemma sample_payloads_nl:
  "CHR 0x0A \<notin> set (drop 6 line_place)" "CHR 0x0A \<notin> set (drop 6 line_again)"
  "CHR 0x0A \<notin> set (drop 6 line_stored)"
  by (simp_all add: line_place_def line_again_def line_stored_def)

lemma decode_three:
  "decode browser (decoder_new browser) (concat three_events) =
     (terminated [''data: '' @ drop 6 line_place, ''data: '' @ drop 6 line_again,
                  ''data: '' @ drop 6 line_stored], utf8_start)"
proof -
  let ?w = "terminated [line_place, line_again, line_stored]"
  have "concat three_events = bytes_of (take 30 ?w @ drop 30 ?w)"
    unfolding three_events_def bytes_of_def by (simp del: append_take_drop_id)
  then have c: "concat three_events = bytes_of ?w" by simp
  have "\<forall>c \<in> set ?w. of_char c \<le> (127 :: nat)"
    using ascii_place sample_lines_ascii by (auto simp: terminated_def)
  then have "decode browser utf8_start (bytes_of ?w) = (?w, utf8_start)"
    by (rule decode_browser_ascii)
  then show ?thesis
    using c line_place_split sample_lines_split by (simp add: browser_fields)
qed

lemma three_events_run:
  "sseLog (snd (run browser start_Ann (FetchSettled (Resolved ok_response) # chunks three_events))) =
     [starting_entry ''Ann'', JStr ''Place finger'', JStr ''Place the same finger again'',
      JStr ''Fingerprint stored'']"
  using run_two_progress_success [OF streaming_ok decode_three sample_payloads_nl,
      where ?m1.0 = "''Place finger''" and ?m2.0 = "''Place the same finger again''"
        and ?m3.0 = "''Fingerprint stored''" and now = initial_settings and seen = False
        and name = "''Ann''" and ui = opened and es = "[]"]
    parse_place parse_again parse_stored
  by (simp add: browser_fields or_else_def start_Ann_def)

lemma process_line_aborted:
  "process_line P (ui\<lparr>aborted := a\<rparr>) l =
     (fst (process_line P ui l), (snd (process_line P ui l))\<lparr>aborted := a\<rparr>)"
  by (simp add: process_line_def Let_def split: sum.splits)

lemma process_lines_aborted:
  "process_lines P (ui\<lparr>aborted := a\<rparr>) ls =
     (fst (process_lines P ui ls), (snd (process_lines P ui ls))\<lparr>aborted := a\<rparr>)"
proof (induction ls arbitrary: ui)
  case Nil
  show ?case by simp
next
  case (Cons l ls)
  obtain f u where p: "process_line P ui l = (f, u)" by (cases "process_line P ui l")
  show ?case
    using process_line_aborted [where P = P and ui = ui and a = a and l = l] p Cons.IH [of u] by (cases f) simp_all
qed

lemma read_chunk_aborted:
  "read_chunk P iv (ui\<lparr>aborted := a\<rparr>) v =
     (fst (read_chunk P iv ui v), (snd (read_chunk P iv ui v))\<lparr>aborted := a\<rparr>)"
proof -
  obtain t d' where d: "decode P (decoder iv) v = (t, d')" by (cases "decode P (decoder iv) v")
  obtain f u where p: "process_lines P ui (butlast (split_nl (buffer iv @ t))) = (f, u)"
    by (cases "process_lines P ui (butlast (split_nl (buffer iv @ t)))")
  have pa: "process_lines P (ui\<lparr>aborted := a\<rparr>) (butlast (split_nl (buffer iv @ t))) = (f, u\<lparr>aborted := a\<rparr>)"
    using process_lines_aborted [where P = P and ui = ui and a = a] p by simp
  show ?thesis
  proof (cases f)
    case Continue
    then show ?thesis
      using read_chunk_Continue [OF d, of ui u] read_chunk_Continue [OF d, of "ui\<lparr>aborted := a\<rparr>" "u\<lparr>aborted := a\<rparr>"] p pa
      by simp
  next
    case Return
    then show ?thesis
      using read_chunk_Return [OF d, of ui u] read_chunk_Return [OF d, of "ui\<lparr>aborted := a\<rparr>" "u\<lparr>aborted := a\<rparr>"] p pa
      by (simp add: finally_block_eq)
  qed
qed

lemma start_Ann_eq:
  "start_Ann =
     (\<lparr>pc = AwaitFetch, signal = 0, isRegistering_seen = False, buffer = [], decoder = utf8_start\<rparr>,
      opened\<lparr>isRegistering := True, sseLog := [starting_entry ''Ann''],
         abortControllerRef := Some 0, controllers := 1,
         fetches := [add_fingerprint_request browser initial_settings ''Ann'' 0]\<rparr>)"
  by (simp add: start_Ann_def handleAddFingerprint_eq opened_def showAddModal_def mounted_def
      browser_fields)

lemma read_place:
  assumes "buffer iv = []" and "decoder iv = utf8_start"
  shows "read_chunk browser iv ui (bytes_of (terminated [line_place])) =
     (iv, ui\<lparr>sseLog := sseLog ui @ [JStr ''Place finger'']\<rparr>)"
proof -
  have d: "decode browser (decoder iv) (bytes_of (terminated [line_place])) =
      (terminated [line_place], utf8_start)"
    using decode_place assms(2) by (simp add: browser_fields)
  have l: "last (split_nl (terminated [line_place])) = []"
    using split_nl_terminated [of "[line_place]" "[]"] nl_place by simp
  have "process_lines browser ui (butlast (split_nl (buffer iv @ terminated [line_place]))) =
      (Continue, ui\<lparr>sseLog := sseLog ui @ [JStr ''Place finger'']\<rparr>)"
    using assms(1) lines_place by (simp add: process_line_place)
  then show ?thesis
    using read_chunk_Continue [OF d] assms l by simp
qed

lemma after_fetch:
  "run browser start_Ann [FetchSettled (Resolved ok_response)] =
     (fst start_Ann\<lparr>pc := AwaitRead\<rparr>, snd start_Ann)"
  by (simp add: start_Ann_eq run_Cons run_Nil ok_response_def browser_fields)

lemma registering_eq:
  "registering = (snd start_Ann)\<lparr>sseLog := [starting_entry ''Ann'', JStr ''Place finger'']\<rparr>"
proof -
  have "run browser start_Ann [FetchSettled (Resolved ok_response), place_chunk] =
      step browser (run browser start_Ann [FetchSettled (Resolved ok_response)]) place_chunk"
    using run_append [of browser start_Ann "[FetchSettled (Resolved ok_response)]" "[place_chunk]"]
    by (simp add: run_Cons run_Nil)
  then show ?thesis
    unfolding registering_def after_fetch
    by (simp add: place_chunk_def read_place start_Ann_eq)
qed

lemma emit_bytes_of: "emit (bytes_of s) = s"
  by (simp add: emit_def bytes_of_def unat_of_char comp_def)

lemma utf8_step_two_bytes:
  assumes "0xC2 \<le> (of_char a :: nat)" and "of_char a \<le> (0xDF :: nat)"
    and "0x80 \<le> (of_char b :: nat)" and "of_char b \<le> (0xBF :: nat)"
  shows "decode browser utf8_start (bytes_of [a, b]) = ([a, b], utf8_start)"
proof -
  have a: "\<not> (of_char a :: byte) \<le> 0x7F" "0xC2 \<le> (of_char a :: byte)" "(of_char a :: byte) \<le> 0xDF"
    using assms(1,2) by (simp_all add: word_le_nat_alt unat_of_char)
  have b: "\<not> (of_char b :: byte) < 0x80" "\<not> 0xBF < (of_char b :: byte)"
    using assms(3,4) by (simp_all add: word_less_nat_alt unat_of_char)
  have 1: "utf8_step utf8_start (of_char a) =
      ([], \<lparr>pending = [of_char a], needed = 1, lower = 0x80, upper = 0xBF\<rparr>)"
    using a by (simp add: utf8_step_def utf8_lead_def utf8_start_def)
  have 2: "utf8_step \<lparr>pending = [of_char a], needed = 1, lower = 0x80, upper = 0xBF\<rparr> (of_char b) =
      (emit (bytes_of [a, b]), utf8_start)"
    using b by (simp add: utf8_step_def bytes_of_def)
  show ?thesis using 1 2 emit_bytes_of [of "[a, b]"] by (simp add: bytes_of_def browser_def)
qed

lemma decode_concat:
  "decode P d a = (s, d1) \<Longrightarrow> decode P d1 b = (t, d2) \<Longrightarrow> decode P d (a @ b) = (s @ t, d2)"
  by (simp add: decode_append)

lemma bytes_of_append: "bytes_of (s @ t) = bytes_of s @ bytes_of t"
  by (simp add: bytes_of_def)

lemma one_chunk_text:
  "decode browser (decoder_new browser) (concat in_one_chunk) =
     (terminated [line_place, comment_line], utf8_start)"
proof -
  have 1: "decode browser utf8_start (bytes_of (line_place @ [CHR 0x0A, CHR 0x3A, CHR 0x20])) =
      (line_place @ [CHR 0x0A, CHR 0x3A, CHR 0x20], utf8_start)"
    using ascii_place by (intro decode_browser_ascii) simp
  have 2: "decode browser utf8_start (bytes_of [CHR 0xC3, CHR 0xA9]) = ([CHR 0xC3, CHR 0xA9], utf8_start)"
    by (rule utf8_step_two_bytes) simp_all
  have 3: "decode browser utf8_start (bytes_of [CHR 0x0A]) = ([CHR 0x0A], utf8_start)"
    by (intro decode_browser_ascii) simp
  have 12: "decode browser utf8_start
      (bytes_of (line_place @ [CHR 0x0A, CHR 0x3A, CHR 0x20]) @ bytes_of [CHR 0xC3, CHR 0xA9]) =
      ((line_place @ [CHR 0x0A, CHR 0x3A, CHR 0x20]) @ [CHR 0xC3, CHR 0xA9], utf8_start)"
    by (rule decode_concat [OF 1 2])
  have "decode browser utf8_start
      ((bytes_of (line_place @ [CHR 0x0A, CHR 0x3A, CHR 0x20]) @ bytes_of [CHR 0xC3, CHR 0xA9]) @
       bytes_of [CHR 0x0A]) =
      (((line_place @ [CHR 0x0A, CHR 0x3A, CHR 0x20]) @ [CHR 0xC3, CHR 0xA9]) @ [CHR 0x0A], utf8_start)"
    by (rule decode_concat [OF 12 3])
  then show ?thesis
    by (simp add: in_one_chunk_def browser_fields terminated_def comment_line_def bytes_of_def)
qed

lemma process_line_comment: "process_line P ui comment_line = (Continue, ui)"
  by (simp add: process_line_def comment_line_def)

lemma one_chunk_run:
  "sseLog (snd (run browser start_Ann
      (FetchSettled (Resolved ok_response) # chunks in_one_chunk @ [ReadSettled (Resolved Done)]))) =
     [starting_entry ''Ann'', JStr ''Place finger'', JStr ''Registration stream ended.'']"
proof -
  let ?ls = "[line_place, comment_line]"
  have nl: "\<forall>l \<in> set ?ls. CHR 0x0A \<notin> set l" using nl_place by (simp add: comment_line_def)
  have sp: "split_nl (terminated ?ls) = ?ls @ [[]]"
    using split_nl_terminated [OF nl, of "[]"] by simp
  have p: "process_lines browser (snd start_Ann) (butlast (split_nl (terminated ?ls))) =
      (Continue, (snd start_Ann)\<lparr>sseLog := sseLog (snd start_Ann) @ [JStr ''Place finger'']\<rparr>)"
    by (simp add: sp process_line_place process_line_comment)
  have h: "handleAddFingerprint browser initial_settings False ''Ann'' opened = (fst start_Ann, snd start_Ann)"
    by (simp add: start_Ann_def)
  have "run browser (fst start_Ann, snd start_Ann) (FetchSettled (Resolved ok_response) # chunks in_one_chunk) =
      (fst start_Ann\<lparr>pc := AwaitRead, decoder := utf8_start, buffer := last (split_nl (terminated ?ls))\<rparr>,
       (snd start_Ann)\<lparr>sseLog := sseLog (snd start_Ann) @ [JStr ''Place finger'']\<rparr>)"
    by (rule run_stream_Continue [OF streaming_ok h one_chunk_text p])
  then have "run browser start_Ann
      (FetchSettled (Resolved ok_response) # chunks in_one_chunk @ [ReadSettled (Resolved Done)]) =
      read_done (fst start_Ann\<lparr>pc := AwaitRead, decoder := utf8_start, buffer := last (split_nl (terminated ?ls))\<rparr>)
       ((snd start_Ann)\<lparr>sseLog := sseLog (snd start_Ann) @ [JStr ''Place finger'']\<rparr>)"
    using run_append [of browser start_Ann "FetchSettled (Resolved ok_response) # chunks in_one_chunk"
        "[ReadSettled (Resolved Done)]"]
    by (simp add: run_Cons run_Nil)
  then show ?thesis by (simp add: read_done_eq start_Ann_eq)
qed

lemma last_chunk: "last in_three_chunks = [0xA9, 0x0A]"
  by (simp add: in_three_chunks_def bytes_of_def terminated_def line_place_def comment_line_def)

lemma send_carries:
  "sent_base (send P now a op) (baseUrl now) \<and>
   sent_Authorization (send P now a op) = ''Bearer '' @ token now"
  by (cases op) (simp_all add: api_request_def request_interceptor_def add_fingerprint_request_def)

lemma cancel_while_reading_the_error_body:
  assumes "pc iv = AwaitErrorBody code" and "isRegistering ui"
    and "abortControllerRef ui = Some (signal iv)"
  shows "messages (snd (run P (iv, ui) [CancelClicked, JsonSettled (Rejected e)])) =
     messages ui @
       [(error, JStr (''Error '' @ show_nat code @ '': Failed to parse error response from server.''))]"
  using assms
  by (simp add: run_Cons run_Nil cancel_click_def error_response_def or_else_def finally_block_eq
      Let_def del: show_nat.simps)

subsection \<open>The end of a stream, and payloads that are no events\<close>

lemma parse_null: "JSON_parse browser (drop 6 line_null) = Inr JNull"
  by (simp add: browser_fields parse_payload_def line_null_def)

lemma process_line_null:
  "process_line browser ui line_null =
     (Continue,
      ui\<lparr>render_errors := render_errors ui @ [TypeError_reading browser ''message''],
         console := console ui @
           [[CStr ''Error parsing SSE JSON:'', CErr (TypeError_reading browser ''status''), CStr ''null'']],
         sseLog := sseLog ui @
           [JStr (''Error parsing SSE event: '' @ err_message (TypeError_reading browser ''status''))]\<rparr>)"
  by (simp add: process_line_def line_null_def browser_fields parse_payload_def)

lemma ascii_null: "\<forall>c \<in> set line_null. of_char c \<le> (127 :: nat)"
  by (simp add: line_null_def)

lemma decode_null:
  "decode browser (decoder_new browser) (concat [bytes_of (terminated [line_null])]) =
     (terminated [line_null], utf8_start)"
proof -
  have "\<forall>c \<in> set (terminated [line_null]). of_char c \<le> (127 :: nat)"
    using ascii_null by (auto simp: terminated_def)
  then show ?thesis
    using decode_browser_ascii [of "terminated [line_null]"] by (simp add: browser_fields)
qed

lemma lines_null: "butlast (split_nl (terminated [line_null])) = [line_null]"
  using split_nl_terminated [of "[line_null]" "[]"] by (simp add: line_null_def)

lemma not_terminal_null: "\<not> terminal (event_status browser line_null)"
  by (simp add: event_status_def terminal_def browser_fields parse_payload_def line_null_def)


lemma stream_end_appends_the_marker:
  fixes now :: settings and seen :: bool and name :: string and ui :: fingerprint_list
  assumes "streaming resp"
    and "decode P (decoder_new P) (concat cs) = (t, d')"
    and "\<forall>l \<in> set (butlast (split_nl t)). \<not> terminal (event_status P l)"
    and "\<forall>l \<in> set (butlast (split_nl t)). \<not> unreadable P l"
  defines "final \<equiv> run P (handleAddFingerprint P now seen name ui)
     (FetchSettled (Resolved resp) # chunks cs @ [ReadSettled (Resolved Done)])"
  shows "pc (fst final) = Settled
       \<and> \<not> isRegistering (snd final)
       \<and> sseLog (snd final) =
           sseLog (snd (process_lines P (snd (handleAddFingerprint P now seen name ui))
                          (butlast (split_nl t)))) @ [JStr ''Registration stream ended.'']
       \<and> render_errors (snd final) = render_errors ui
       \<and> messages (snd final) = messages ui @
            (if seen then [(warning, JStr ''Registration process ended without a clear status.'')] else [])
       \<and> fetchFingerprints_calls (snd final) = fetchFingerprints_calls ui
       \<and> reader_cancels (snd final) = reader_cancels ui
       \<and> session_outcome (length (messages ui)) (snd final) = Some EndedWithoutResult"
proof -
  let ?iv0 = "fst (handleAddFingerprint P now seen name ui)"
  let ?ui0 = "snd (handleAddFingerprint P now seen name ui)"
  have h: "handleAddFingerprint P now seen name ui = (?iv0, ?ui0)" by simp
  obtain es cs' where p: "process_lines P ?ui0 (butlast (split_nl t)) =
      (Continue, ?ui0\<lparr>sseLog := sseLog ?ui0 @ es, console := console ?ui0 @ cs'\<rparr>)"
    using process_lines_nonterminal [OF assms(3,4), of ?ui0] by auto
  let ?u = "?ui0\<lparr>sseLog := sseLog ?ui0 @ es, console := console ?ui0 @ cs'\<rparr>"
  let ?iv1 = "?iv0\<lparr>pc := AwaitRead, decoder := d', buffer := last (split_nl t)\<rparr>"
  have "run P (?iv0, ?ui0) (FetchSettled (Resolved resp) # chunks cs) = (?iv1, ?u)"
    using run_stream_Continue [OF assms(1) h assms(2) p] .
  then have f: "final = read_done ?iv1 ?u"
    using run_append [of P "(?iv0, ?ui0)" "FetchSettled (Resolved resp) # chunks cs" "[ReadSettled (Resolved Done)]"]
    by (simp add: final_def run_Cons run_Nil)
  have 1: "pc (fst final) = Settled" "\<not> isRegistering (snd final)"
    "sseLog (snd final) = starting_entry name # es @ [JStr ''Registration stream ended.'']"
    "messages (snd final) = messages ui @
            (if seen then [(warning, JStr ''Registration process ended without a clear status.'')] else [])"
    "fetchFingerprints_calls (snd final) = fetchFingerprints_calls ui"
    "reader_cancels (snd final) = reader_cancels ui"
    "render_errors (snd final) = render_errors ui"
    unfolding f read_done_eq handleAddFingerprint_eq by simp_all
  have "session_outcome (length (messages ui)) (snd final) = Some EndedWithoutResult"
    using 1(2,3,4) by (simp add: session_outcome_def)
  moreover have "sseLog (snd final) =
      sseLog (snd (process_lines P ?ui0 (butlast (split_nl t)))) @ [JStr ''Registration stream ended.'']"
    using 1(3) p by (simp add: handleAddFingerprint_eq)
  ultimately show ?thesis using 1 by blast
qed

lemma readable_place: "\<not> unreadable browser line_place"
  using parse_place
  by (simp add: unreadable_def browser_fields get_prop_event line_place_def)

lemma stream_end_examples:
  "sseLog (snd (run browser (handleAddFingerprint browser initial_settings False ''Ann'' opened)
        (FetchSettled (Resolved ok_response) # chunks [bytes_of (terminated [line_place])]
           @ [ReadSettled (Resolved Done)]))) =
       [starting_entry ''Ann'', JStr ''Place finger'', JStr ''Registration stream ended.'']
   \<and> session_outcome (length (messages opened))
       (snd (run browser (handleAddFingerprint browser initial_settings False ''Ann'' opened)
        (FetchSettled (Resolved ok_response) # chunks [bytes_of (terminated [line_place])]
           @ [ReadSettled (Resolved Done)]))) = Some EndedWithoutResult
   \<and> sseLog (snd (run browser (handleAddFingerprint browser initial_settings False ''Ann'' opened)
        (FetchSettled (Resolved ok_response) # chunks [] @ [ReadSettled (Resolved Done)]))) =
       [starting_entry ''Ann'', JStr ''Registration stream ended.'']
   \<and> session_outcome (length (messages opened))
       (snd (run browser (handleAddFingerprint browser initial_settings False ''Ann'' opened)
        (FetchSettled (Resolved ok_response) # chunks [] @ [ReadSettled (Resolved Done)]))) =
       Some EndedWithoutResult"
proof -
  have h: "\<forall>l \<in> set (butlast (split_nl (terminated [line_place]))). \<not> terminal (event_status browser l)"
    using lines_place not_terminal_place by simp
  have r: "\<forall>l \<in> set (butlast (split_nl (terminated [line_place]))). \<not> unreadable browser l"
    using lines_place readable_place by simp
  have d0: "decode browser (decoder_new browser) (concat []) = ([], utf8_start)"
    by (simp add: browser_fields)
  have h0: "\<forall>l \<in> set (butlast (split_nl [])). \<not> terminal (event_status browser l)"
    by simp
  have r0: "\<forall>l \<in> set (butlast (split_nl [])). \<not> unreadable browser l"
    by simp
  show ?thesis
    using stream_end_appends_the_marker [OF streaming_ok decode_place h r, of initial_settings False "''Ann''" opened]
      stream_end_appends_the_marker [OF streaming_ok d0 h0 r0, of initial_settings False "''Ann''" opened]
      lines_place
    by (simp add: process_line_place handleAddFingerprint_eq)
qed

lemma null_run:
  "run browser start_Ann
     (FetchSettled (Resolved ok_response) # chunks [bytes_of (terminated [line_null])]
        @ [ReadSettled (Resolved Done)]) =
   read_done (fst start_Ann\<lparr>pc := AwaitRead, decoder := utf8_start, buffer := []\<rparr>)
     (snd (process_line browser (snd start_Ann) line_null))"
proof -
  have sp: "split_nl (terminated [line_null]) = [line_null, []]"
    using split_nl_terminated [of "[line_null]" "[]"] by (simp add: line_null_def)
  have c: "fst (process_line browser (snd start_Ann) line_null) = Continue"
    by (simp add: process_line_null)
  have p: "process_lines browser (snd start_Ann) (butlast (split_nl (terminated [line_null]))) =
      (Continue, snd (process_line browser (snd start_Ann) line_null))"
    by (simp add: sp process_line_null)
  have h: "handleAddFingerprint browser initial_settings False ''Ann'' opened = (fst start_Ann, snd start_Ann)"
    by (simp add: start_Ann_def)
  have "run browser (fst start_Ann, snd start_Ann)
      (FetchSettled (Resolved ok_response) # chunks [bytes_of (terminated [line_null])]) =
      (fst start_Ann\<lparr>pc := AwaitRead, decoder := utf8_start, buffer := last (split_nl (terminated [line_null]))\<rparr>,
       snd (process_line browser (snd start_Ann) line_null))"
    by (rule run_stream_Continue [OF streaming_ok h decode_null p])
  then show ?thesis
    using run_append [of browser start_Ann
        "FetchSettled (Resolved ok_response) # chunks [bytes_of (terminated [line_null])]"
        "[ReadSettled (Resolved Done)]"]
    by (simp add: run_Cons run_Nil sp)
qed


section \<open>The claims\<close>

text \<open>
  C1. However the bytes of the event stream are cut into chunks, the run ends the same:
  two streams that deliver the same bytes leave the same component state (the log
  \<open>sseLog\<close> with it) and the run at the same place, whatever follows the chunks. A cut
  may fall inside a line or inside a character: the decoder keeps its state from one
  read to the next, and the text after the last newline stays in the buffer.
\<close>

theorem chunk_boundaries_do_not_matter:
  assumes "concat cs = concat cs'"
  shows "snd (run P (handleAddFingerprint P now seen name ui) (FetchSettled r # chunks cs @ es)) =
         snd (run P (handleAddFingerprint P now seen name ui) (FetchSettled r # chunks cs' @ es))
       \<and> pc (fst (run P (handleAddFingerprint P now seen name ui) (FetchSettled r # chunks cs @ es))) =
         pc (fst (run P (handleAddFingerprint P now seen name ui) (FetchSettled r # chunks cs' @ es)))"
proof -
  obtain iv0 ui0 where s0: "handleAddFingerprint P now seen name ui = (iv0, ui0)"
    by (cases "handleAddFingerprint P now seen name ui")
  have p0: "pc iv0 = AwaitFetch" using handleAddFingerprint_pc [of P now seen name ui] s0 by simp
  obtain iv1 ui1 where s1: "step P (iv0, ui0) (FetchSettled r) = (iv1, ui1)"
    by (cases "step P (iv0, ui0) (FetchSettled r)")
  have "same_run (run P (iv1, ui1) (chunks cs @ es)) (run P (iv1, ui1) (chunks cs' @ es))"
  proof (cases "pc iv1 = AwaitRead")
    case True
    then have "buffer iv1 = []" using step_fetch_buffer [OF p0, of P ui0 r] s1 by simp
    then show ?thesis using chunk_boundaries [OF True _ assms] by simp
  next
    case False
    then show ?thesis by (simp add: run_append run_chunks_not_reading same_run_refl)
  qed
  then show ?thesis using s0 s1 by (auto simp: run_Cons same_run_def)
qed

lemma same_bytes: "concat in_one_chunk = concat in_three_chunks"
proof -
  have "take 11 b @ take 45 (drop 11 b) @ drop 56 b = b" for b :: "byte list"
  proof -
    have "take 45 (drop 11 b) @ drop 56 b = drop 11 b"
      using append_take_drop_id [of 45 "drop 11 b"] by (simp del: append_take_drop_id)
    then show ?thesis by simp
  qed
  then show ?thesis by (simp add: in_one_chunk_def in_three_chunks_def)
qed

theorem chunk_boundaries_do_not_matter_witness:
  "concat in_one_chunk = concat in_three_chunks
   \<and> last in_three_chunks = [0xA9, 0x0A]
   \<and> snd (run browser start_Ann
            (FetchSettled (Resolved ok_response) # chunks in_three_chunks @ [ReadSettled (Resolved Done)])) =
     snd (run browser start_Ann
            (FetchSettled (Resolved ok_response) # chunks in_one_chunk @ [ReadSettled (Resolved Done)]))
   \<and> sseLog (snd (run browser start_Ann
            (FetchSettled (Resolved ok_response) # chunks in_three_chunks @ [ReadSettled (Resolved Done)]))) =
     [starting_entry ''Ann'', JStr ''Place finger'', JStr ''Registration stream ended.'']"
  using chunk_boundaries_do_not_matter [OF same_bytes, of browser initial_settings False "''Ann''" opened
      "Resolved ok_response" "[ReadSettled (Resolved Done)]"] same_bytes one_chunk_run last_chunk
  by (simp add: start_Ann_def)

text \<open>
  C2, on a stream for which the code does not do it. The stream is ok, delivers the one
  line \<open>data: null\<close> and ends: it carries no success, error or cancelled event.
  \<open>JSON.parse\<close> gives \<open>null\<close>. The function that line 154 queues reads
  \<open>eventData.message\<close> when React runs it, outside the \<open>try\<close>: it throws, so the render
  throws, and nothing of the log is shown any more, the entry
  \<open>Registration stream ended.\<close> no more than the others. The \<open>catch\<close> of line 181 sees
  only the error of the read of \<open>eventData.status\<close> at line 156. On a stream with no
  such line the run ends as C2 says (lemma \<open>stream_end_appends_the_marker\<close>).
\<close>

theorem null_payload_fails_the_render:
  "streaming ok_response
   \<and> decode browser (decoder_new browser) (concat [bytes_of (terminated [line_null])]) =
       (terminated [line_null], utf8_start)
   \<and> butlast (split_nl (terminated [line_null])) = [line_null]
   \<and> JSON_parse browser (drop 6 line_null) = Inr JNull
   \<and> \<not> terminal (event_status browser line_null)
   \<and> shown_log (snd start_Ann) = Some [starting_entry ''Ann'']
   \<and> console (snd (run browser start_Ann
        (FetchSettled (Resolved ok_response) # chunks [bytes_of (terminated [line_null])]
           @ [ReadSettled (Resolved Done)]))) =
       [[CStr ''Error parsing SSE JSON:'',
         CErr (TypeError_reading browser ''status''),
         CStr ''null'']]
   \<and> render_errors (snd (run browser start_Ann
        (FetchSettled (Resolved ok_response) # chunks [bytes_of (terminated [line_null])]
           @ [ReadSettled (Resolved Done)]))) =
       [TypeError_reading browser ''message'']
   \<and> shown_log (snd (run browser start_Ann
        (FetchSettled (Resolved ok_response) # chunks [bytes_of (terminated [line_null])]
           @ [ReadSettled (Resolved Done)]))) = None"
proof -
  let ?final = "run browser start_Ann
        (FetchSettled (Resolved ok_response) # chunks [bytes_of (terminated [line_null])]
           @ [ReadSettled (Resolved Done)])"
  have c: "console (snd ?final) =
       [[CStr ''Error parsing SSE JSON:'',
         CErr (TypeError_reading browser ''status''),
         CStr ''null'']]"
    unfolding null_run
    by (simp add: process_line_null read_done_eq start_Ann_eq opened_def showAddModal_def mounted_def)
  have r: "render_errors (snd ?final) =
       [TypeError_reading browser ''message'']"
    unfolding null_run
    by (simp add: process_line_null read_done_eq start_Ann_eq opened_def showAddModal_def mounted_def)
  have s: "shown_log (snd ?final) = None"
    using r by (simp add: shown_log_def)
  have s0: "shown_log (snd start_Ann) = Some [starting_entry ''Ann'']"
    by (simp add: shown_log_def start_Ann_eq opened_def showAddModal_def mounted_def)
  show ?thesis
    using streaming_ok decode_null lines_null parse_null not_terminal_null c r s s0 by blast
qed

text \<open>
  C3, as the code has it. The loop of \<open>handleAddFingerprint\<close> never reads the abort
  signal: what a chunk does is the same whether or not \<open>abort()\<close> has been called, so a
  chunk that \<open>reader.read()\<close> still delivers after the cancel button was clicked is
  processed like any other. The cancellation is the platform's: when the button is
  clicked while the run awaits \<open>fetch\<close> or \<open>reader.read()\<close> and that promise is then
  rejected with an \<open>AbortError\<close>, the run settles with the entry
  \<open>Fingerprint registration cancelled by user.\<close> appended, the same text shown as an
  info message, \<open>isRegistering\<close> false and the ref cleared, the outcome shown is
  \<open>Cancelled\<close>, and whatever happens afterwards changes nothing.
\<close>

theorem cancel_rejects_the_awaited_promise:
  fixes es :: "event list"
  assumes "pc iv = AwaitFetch \<or> pc iv = AwaitRead"
    and "isRegistering ui"
    and "abortControllerRef ui = Some (signal iv)"
    and "err_name e = ''AbortError''"
  defines "cancelled \<equiv> ui
     \<lparr>aborted := aborted ui @ [signal iv],
      messages := messages ui @ [(info, JStr ''Fingerprint registration cancelled by user.'')],
      sseLog := sseLog ui @ [JStr ''Fingerprint registration cancelled by user.''],
      isRegistering := False,
      abortControllerRef := None\<rparr>"
  shows "run P (iv, ui) (CancelClicked # rejection (pc iv) e # es) = (iv\<lparr>pc := Settled\<rparr>, cancelled)
       \<and> session_outcome (length (messages ui)) cancelled = Some Cancelled
       \<and> read_chunk P iv (ui\<lparr>aborted := a\<rparr>) v =
           (fst (read_chunk P iv ui v), (snd (read_chunk P iv ui v))\<lparr>aborted := a\<rparr>)"
proof -
  have c: "cancel_click ui = ui\<lparr>aborted := aborted ui @ [signal iv]\<rparr>"
    using assms(2,3) by (simp add: cancel_click_def)
  have "step P (iv, ui\<lparr>aborted := aborted ui @ [signal iv]\<rparr>) (rejection (pc iv) e) =
      (iv\<lparr>pc := Settled\<rparr>, cancelled)"
    using assms(1,3,4) by (auto simp: cancelled_def catch_block_def finally_block_eq)
  then have "run P (iv, ui) [CancelClicked, rejection (pc iv) e] = (iv\<lparr>pc := Settled\<rparr>, cancelled)"
    using c by (simp add: run_Cons run_Nil)
  moreover have "run P (iv\<lparr>pc := Settled\<rparr>, cancelled) es = (iv\<lparr>pc := Settled\<rparr>, cancelled)"
    by (rule run_settled_idle) (simp_all add: cancelled_def)
  ultimately have 1: "run P (iv, ui) (CancelClicked # rejection (pc iv) e # es) =
      (iv\<lparr>pc := Settled\<rparr>, cancelled)"
    using run_append [of P "(iv, ui)" "[CancelClicked, rejection (pc iv) e]" es] by simp
  have 2: "session_outcome (length (messages ui)) cancelled = Some Cancelled"
    by (simp add: session_outcome_def cancelled_def)
  show ?thesis using 1 2 read_chunk_aborted by blast
qed

theorem cancel_rejects_the_awaited_promise_witness:
  "pc (fst start_Ann) = AwaitFetch
   \<and> isRegistering (snd start_Ann)
   \<and> abortControllerRef (snd start_Ann) = Some (signal (fst start_Ann))
   \<and> err_name AbortError = ''AbortError''
   \<and> sseLog (snd (run browser start_Ann
        [CancelClicked, FetchSettled (Rejected AbortError), FetchSettled (Resolved ok_response), place_chunk])) =
       [starting_entry ''Ann'', JStr ''Fingerprint registration cancelled by user.'']
   \<and> pc (fst (run browser start_Ann
        [CancelClicked, FetchSettled (Rejected AbortError), FetchSettled (Resolved ok_response), place_chunk])) =
       Settled"
  using cancel_rejects_the_awaited_promise [where iv = "fst start_Ann" and ui = "snd start_Ann"
      and e = AbortError and P = browser and es = "[FetchSettled (Resolved ok_response), place_chunk]"]
  by (simp add: start_Ann_eq AbortError_def)

text \<open>
  C3, as the claim states it, fails: after the cancel button was clicked and the signal
  aborted, a chunk delivered by \<open>reader.read()\<close> still adds its event to the log.
\<close>

theorem chunk_after_cancel_counterexample:
  "aborted (snd (run browser start_Ann [FetchSettled (Resolved ok_response), CancelClicked])) =
     [signal (fst start_Ann)]
   \<and> sseLog (snd (run browser start_Ann [FetchSettled (Resolved ok_response), CancelClicked])) =
     [starting_entry ''Ann'']
   \<and> sseLog (snd (run browser start_Ann
        [FetchSettled (Resolved ok_response), CancelClicked, place_chunk])) =
     [starting_entry ''Ann'', JStr ''Place finger'']"
proof -
  have 1: "run browser start_Ann [FetchSettled (Resolved ok_response), CancelClicked] =
      (fst start_Ann\<lparr>pc := AwaitRead\<rparr>, (snd start_Ann)\<lparr>aborted := [0]\<rparr>)"
    using run_append [of browser start_Ann "[FetchSettled (Resolved ok_response)]" "[CancelClicked]"]
    unfolding after_fetch
    by (simp add: run_Cons run_Nil cancel_click_def start_Ann_eq opened_def showAddModal_def mounted_def)
  have "run browser start_Ann [FetchSettled (Resolved ok_response), CancelClicked, place_chunk] =
      step browser (run browser start_Ann [FetchSettled (Resolved ok_response), CancelClicked]) place_chunk"
    using run_append [of browser start_Ann "[FetchSettled (Resolved ok_response), CancelClicked]" "[place_chunk]"]
    by (simp add: run_Cons run_Nil)
  then have 2: "sseLog (snd (run browser start_Ann
        [FetchSettled (Resolved ok_response), CancelClicked, place_chunk])) =
     [starting_entry ''Ann'', JStr ''Place finger'']"
    unfolding 1 by (simp add: place_chunk_def read_place start_Ann_eq)
  show ?thesis using 1 2 by (simp add: start_Ann_eq)
qed

text \<open>
  C4, as the code has it. \<open>handleAddFingerprint\<close> checks nothing before it starts: in
  every state, also while \<open>isRegistering\<close> is true, it sets \<open>isRegistering\<close>, replaces the
  log by the single entry \<open>Starting registration for "name"...\<close>, puts a new
  \<open>AbortController\<close> in the ref without aborting the one that was there, and sends one
  POST. What keeps a second start away while a registration runs is the footer of the
  dialog, which offers the submit button only while \<open>isRegistering\<close> is false.
\<close>

theorem start_has_no_guard:
  "isRegistering (snd (handleAddFingerprint P now seen name ui))
   \<and> sseLog (snd (handleAddFingerprint P now seen name ui)) = [starting_entry name]
   \<and> fetches (snd (handleAddFingerprint P now seen name ui)) =
       fetches ui @ [add_fingerprint_request P now name (controllers ui)]
   \<and> abortControllerRef (snd (handleAddFingerprint P now seen name ui)) = Some (controllers ui)
   \<and> aborted (snd (handleAddFingerprint P now seen name ui)) = aborted ui
   \<and> pc (fst (handleAddFingerprint P now seen name ui)) = AwaitFetch
   \<and> (Submit \<in> set (footer ui)) = (\<not> isRegistering ui)"
  by (simp add: handleAddFingerprint_eq footer_def)

theorem start_has_no_guard_witness:
  "isRegistering registering
   \<and> isRegistering (snd (handleAddFingerprint browser initial_settings False ''Bob'' registering))
   \<and> sseLog (snd (handleAddFingerprint browser initial_settings False ''Bob'' registering)) =
       [starting_entry ''Bob'']
   \<and> footer registering = [CancelOp]"
  using start_has_no_guard [of browser initial_settings False "''Bob''" registering]
  by (simp add: registering_eq start_Ann_eq footer_def)

text \<open>
  C4, as the claim states it, fails: called in a state where a registration is under
  way, the function replaces the log and sends a second request.
\<close>

theorem second_start_counterexample:
  "isRegistering registering
   \<and> sseLog registering = [starting_entry ''Ann'', JStr ''Place finger'']
   \<and> sseLog (snd (handleAddFingerprint browser initial_settings False ''Bob'' registering)) =
       [starting_entry ''Bob'']
   \<and> sseLog (snd (handleAddFingerprint browser initial_settings False ''Bob'' registering)) \<noteq>
       sseLog registering
   \<and> length (fetches registering) = 1
   \<and> length (fetches (snd (handleAddFingerprint browser initial_settings False ''Bob'' registering))) = 2"
  by (simp add: registering_eq start_Ann_eq handleAddFingerprint_eq opened_def showAddModal_def
      mounted_def)

text \<open>
  C5, as the code has it. Two progress events and a success event, however the stream is
  cut into chunks and whatever follows them: the outcome shown is \<open>Success\<close>, the log
  holds four entries (the entry written at the start, then the three messages) until the
  auto-close timer empties it, the run has settled, \<open>reader.cancel\<close> was called once and
  \<open>fetchFingerprints\<close> once.
\<close>

theorem two_progress_then_success:
  fixes now :: settings and seen :: bool and name :: string and ui :: fingerprint_list
    and es :: "event list"
  assumes "streaming resp"
    and "decode P (decoder_new P) (concat cs) =
           (terminated [''data: '' @ p1, ''data: '' @ p2, ''data: '' @ p3], d')"
    and "CHR 0x0A \<notin> set p1" and "CHR 0x0A \<notin> set p2" and "CHR 0x0A \<notin> set p3"
    and "JSON_parse P p1 = Inr (enrollment_event ''progress'' m1)"
    and "JSON_parse P p2 = Inr (enrollment_event ''progress'' m2)"
    and "JSON_parse P p3 = Inr (enrollment_event ''success'' m3)"
  defines "final \<equiv> run P (handleAddFingerprint P now seen name ui)
     (FetchSettled (Resolved resp) # chunks cs @ es)"
  shows "session_outcome (length (messages ui)) (snd final) = Some Success
       \<and> sseLog (snd final) =
           [starting_entry name,
            or_else (JStr m1) (JSON_stringify P (enrollment_event ''progress'' m1)),
            or_else (JStr m2) (JSON_stringify P (enrollment_event ''progress'' m2)),
            or_else (JStr m3) (JSON_stringify P (enrollment_event ''success'' m3))]
       \<and> length (sseLog (snd final)) = 4
       \<and> sseLog (autoclose (snd final)) = []
       \<and> pc (fst final) = Settled
       \<and> \<not> isRegistering (snd final)
       \<and> reader_cancels (snd final) = reader_cancels ui + 1
       \<and> fetchFingerprints_calls (snd final) = fetchFingerprints_calls ui + 1"
  using run_two_progress_success [OF assms(1-8), of now seen name ui es]
  by (simp add: final_def autoclose_def)

theorem two_progress_then_success_witness:
  "streaming ok_response
   \<and> decode browser (decoder_new browser) (concat three_events) =
       (terminated [''data: '' @ drop 6 line_place, ''data: '' @ drop 6 line_again,
                    ''data: '' @ drop 6 line_stored], utf8_start)
   \<and> CHR 0x0A \<notin> set (drop 6 line_place) \<and> CHR 0x0A \<notin> set (drop 6 line_again)
   \<and> CHR 0x0A \<notin> set (drop 6 line_stored)
   \<and> JSON_parse browser (drop 6 line_place) = Inr (enrollment_event ''progress'' ''Place finger'')
   \<and> JSON_parse browser (drop 6 line_again) =
        Inr (enrollment_event ''progress'' ''Place the same finger again'')
   \<and> JSON_parse browser (drop 6 line_stored) = Inr (enrollment_event ''success'' ''Fingerprint stored'')
   \<and> session_outcome 0 (snd (run browser start_Ann
        (FetchSettled (Resolved ok_response) # chunks three_events @ [ReadSettled (Resolved Done)])))
       = Some Success
   \<and> sseLog (snd (run browser start_Ann
        (FetchSettled (Resolved ok_response) # chunks three_events @ [ReadSettled (Resolved Done)]))) =
       [starting_entry ''Ann'', JStr ''Place finger'', JStr ''Place the same finger again'',
        JStr ''Fingerprint stored'']
   \<and> fetchFingerprints_calls (snd (run browser start_Ann
        (FetchSettled (Resolved ok_response) # chunks three_events @ [ReadSettled (Resolved Done)]))) = 1
   \<and> reader_cancels (snd (run browser start_Ann
        (FetchSettled (Resolved ok_response) # chunks three_events @ [ReadSettled (Resolved Done)]))) = 1"
  using two_progress_then_success [OF streaming_ok decode_three sample_payloads_nl,
      where ?m1.0 = "''Place finger''" and ?m2.0 = "''Place the same finger again''"
        and ?m3.0 = "''Fingerprint stored''" and now = initial_settings and seen = False
        and name = "''Ann''" and ui = opened and es = "[ReadSettled (Resolved Done)]"]
    parse_place parse_again parse_stored streaming_ok decode_three sample_payloads_nl
  by (simp add: browser_fields or_else_def start_Ann_def opened_def showAddModal_def mounted_def)

text \<open>
  C5, as the claim states it, fails: the log has four entries, not three.
\<close>

theorem transcript_length_counterexample:
  "length (sseLog (snd (run browser start_Ann
      (FetchSettled (Resolved ok_response) # chunks three_events)))) = 4
   \<and> length (sseLog (snd (run browser start_Ann
      (FetchSettled (Resolved ok_response) # chunks three_events)))) \<noteq> 3"
  by (simp add: three_events_run)

text \<open>
  C6, as the code has it. \<open>fetchMonitoringStatus\<close> and \<open>fetchDoorStatus\<close> store the
  \<open>status\<close> of the response as it was received, also when it is none of the values the
  panel knows, and show no error; the panel then displays such a value with the text of
  the unknown status. The state is kept and an error message is shown only when the
  request itself fails, or when its response has no data to read the status from.
\<close>

theorem fetched_status_is_stored_as_received:
  assumes "get_prop P data ''status'' = Inr v"
    and "v \<noteq> JStr ''enabled_and_active''" and "v \<noteq> JStr ''enabled_but_paused''"
    and "v \<noteq> JStr ''disabled''" and "v \<noteq> JStr ''locked''" and "v \<noteq> JStr ''unlocked''"
  shows "monitoringStatus (snd (fetchMonitoringStatus P (Resolved data) st)) = v
       \<and> messages (snd (fetchMonitoringStatus P (Resolved data) st)) = messages st
       \<and> fst (fetchMonitoringStatus P (Resolved data) st) = Resolved ()
       \<and> monitoring_text v = label_unknown
       \<and> doorStatus (snd (fetchDoorStatus P (Resolved data) dst)) = v
       \<and> messages (snd (fetchDoorStatus P (Resolved data) dst)) = messages dst
       \<and> fst (fetchDoorStatus P (Resolved data) dst) = Resolved ()
       \<and> door_text v = label_unknown
       \<and> monitoringStatus (snd (fetchMonitoringStatus P (Rejected e) st)) = monitoringStatus st
       \<and> messages (snd (fetchMonitoringStatus P (Rejected e) st)) =
           messages st @ [(error, JStr msg_fetch_monitoring_failed)]
       \<and> doorStatus (snd (fetchDoorStatus P (Rejected e) dst)) = doorStatus dst
       \<and> messages (snd (fetchDoorStatus P (Rejected e) dst)) =
           messages dst @ [(error, JStr msg_fetch_door_failed)]
       \<and> monitoringStatus (snd (fetchMonitoringStatus P (Resolved JNull) st)) = monitoringStatus st
       \<and> messages (snd (fetchMonitoringStatus P (Resolved JNull) st)) =
           messages st @ [(error, JStr msg_fetch_monitoring_failed)]
       \<and> doorStatus (snd (fetchDoorStatus P (Resolved JNull) dst)) = doorStatus dst
       \<and> messages (snd (fetchDoorStatus P (Resolved JNull) dst)) =
           messages dst @ [(error, JStr msg_fetch_door_failed)]"
  using assms
  by (simp add: fetchMonitoringStatus_def fetchDoorStatus_def monitoring_text_def door_text_def Let_def)

theorem fetched_status_is_stored_as_received_witness:
  "get_prop browser standby_response ''status'' = Inr (JStr ''standby'')
   \<and> monitoringStatus (snd (fetchMonitoringStatus browser (Resolved standby_response) monitoring_disabled)) =
       JStr ''standby''
   \<and> monitoring_text (JStr ''standby'') = label_unknown
   \<and> doorStatus (snd (fetchDoorStatus browser (Resolved standby_response) door_locked)) = JStr ''standby''
   \<and> monitoringStatus (snd (fetchMonitoringStatus browser (Rejected Unauthorized) monitoring_disabled)) =
       JStr ''disabled''
   \<and> messages (snd (fetchMonitoringStatus browser (Rejected Unauthorized) monitoring_disabled)) =
       [(error, JStr msg_fetch_monitoring_failed)]"
proof -
  have g: "get_prop browser standby_response ''status'' = Inr (JStr ''standby'')"
    by (simp add: standby_response_def)
  show ?thesis
    using fetched_status_is_stored_as_received [OF g, of monitoring_disabled door_locked Unauthorized] g
    by (simp add: monitoring_disabled_def door_locked_def)
qed

text \<open>
  C6, as the claim states it, fails: a response with the status \<open>standby\<close> replaces the
  status \<open>disabled\<close> the panel held, it is not turned into \<open>unknown\<close>, and no error is
  shown.
\<close>

theorem unrecognized_status_counterexample:
  "monitoringStatus monitoring_disabled = JStr ''disabled''
   \<and> monitoringStatus (snd (fetchMonitoringStatus browser (Resolved standby_response) monitoring_disabled)) =
       JStr ''standby''
   \<and> monitoringStatus (snd (fetchMonitoringStatus browser (Resolved standby_response) monitoring_disabled)) \<noteq>
       JStr ''unknown''
   \<and> messages (snd (fetchMonitoringStatus browser (Resolved standby_response) monitoring_disabled)) = []"
  by (simp add: fetchMonitoringStatus_def monitoring_disabled_def standby_response_def Let_def)

text \<open>
  C7, as the code has it. When the request of a command succeeds, the handler sets the
  status to the command's target value without fetching it. When the request fails, the
  status is left as it was, a fixed error message is shown and the failure is passed to
  \<open>console.error\<close>; the handler catches the failure, so its own promise is fulfilled and
  the failure is not returned to the caller.
\<close>

theorem command_failure_is_shown_not_returned:
  "monitoringStatus (snd (handleStartMonitoring (Resolved r) st)) = JStr ''enabled_and_active''
   \<and> monitoringStatus (snd (handleStopMonitoring (Resolved r) st)) = JStr ''disabled''
   \<and> doorStatus (snd (handleLock (Resolved r) dst)) = JStr ''locked''
   \<and> doorStatus (snd (handleUnlock (Resolved r) dst)) = JStr ''unlocked''
   \<and> monitoringStatus (snd (handleStartMonitoring (Rejected e) st)) = monitoringStatus st
   \<and> monitoringStatus (snd (handleStopMonitoring (Rejected e) st)) = monitoringStatus st
   \<and> doorStatus (snd (handleLock (Rejected e) dst)) = doorStatus dst
   \<and> doorStatus (snd (handleUnlock (Rejected e) dst)) = doorStatus dst
   \<and> fst (handleStartMonitoring (Rejected e) st) = Resolved ()
   \<and> fst (handleStopMonitoring (Rejected e) st) = Resolved ()
   \<and> fst (handleLock (Rejected e) dst) = Resolved ()
   \<and> fst (handleUnlock (Rejected e) dst) = Resolved ()
   \<and> messages (snd (handleStartMonitoring (Rejected e) st)) =
       messages st @ [(error, JStr msg_start_monitoring_failed)]
   \<and> messages (snd (handleStopMonitoring (Rejected e) st)) =
       messages st @ [(error, JStr msg_stop_monitoring_failed)]
   \<and> messages (snd (handleLock (Rejected e) dst)) = messages dst @ [(error, JStr msg_lock_failed)]
   \<and> messages (snd (handleUnlock (Rejected e) dst)) = messages dst @ [(error, JStr msg_unlock_failed)]
   \<and> console (snd (handleStartMonitoring (Rejected e) st)) =
       console st @ [[CStr log_start_monitoring_failed, CErr e]]
   \<and> console (snd (handleStopMonitoring (Rejected e) st)) =
       console st @ [[CStr log_stop_monitoring_failed, CErr e]]
   \<and> console (snd (handleLock (Rejected e) dst)) = console dst @ [[CStr log_lock_failed, CErr e]]
   \<and> console (snd (handleUnlock (Rejected e) dst)) = console dst @ [[CStr log_unlock_failed, CErr e]]"
  by (simp add: handleStartMonitoring_def handleStopMonitoring_def handleLock_def handleUnlock_def
      Let_def)

theorem command_failure_is_shown_not_returned_witness:
  "monitoringStatus (snd (handleStartMonitoring (Resolved JNull) monitoring_disabled)) =
     JStr ''enabled_and_active''
   \<and> monitoringStatus (snd (handleStartMonitoring (Rejected Unauthorized) monitoring_disabled)) =
     JStr ''disabled''
   \<and> fst (handleStartMonitoring (Rejected Unauthorized) monitoring_disabled) = Resolved ()
   \<and> messages (snd (handleStartMonitoring (Rejected Unauthorized) monitoring_disabled)) =
     [(error, JStr msg_start_monitoring_failed)]"
  using command_failure_is_shown_not_returned [of JNull monitoring_disabled door_locked Unauthorized]
  by (simp add: monitoring_disabled_def)

text \<open>
  C7, as the claim states it, fails: the handler does not return the failure of its
  request.
\<close>

theorem failure_not_returned_counterexample:
  "fst (handleStartMonitoring (Rejected Unauthorized) monitoring_disabled) = Resolved ()
   \<and> fst (handleStartMonitoring (Rejected Unauthorized) monitoring_disabled) \<noteq> Rejected Unauthorized
   \<and> fst (handleLock (Rejected Unauthorized) door_locked) \<noteq> Rejected Unauthorized"
  by (simp add: handleStartMonitoring_def handleLock_def Let_def)




text \<open>
  C9. Every request goes out with the base address and the token that the store holds
  when the request is sent, whatever the store held when the \<open>axios\<close> instance was created:
  for each operation alone, and for every request of a session in which the settings
  are saved between requests. \<open>handleAddFingerprint\<close> reads the store in the same
  synchronous step in which it calls \<open>fetch\<close>.
\<close>

theorem config_is_read_when_the_request_is_sent:
  "sent_base (send P now a op) (baseUrl now)
   \<and> sent_Authorization (send P now a op) = ''Bearer '' @ token now
   \<and> list_all (\<lambda>(s, r). sent_base r (baseUrl s) \<and> sent_Authorization r = ''Bearer '' @ token s)
        (requests_sent P a s0 acts)
   \<and> fetches (snd (handleAddFingerprint P now seen name ui)) =
        fetches ui @ [add_fingerprint_request P now name (controllers ui)]
   \<and> send P now a (AddFingerprint name c) = Fetch (add_fingerprint_request P now name c)
   \<and> baseURL (api_request now (createAPI old) m u) = baseUrl now
   \<and> Authorization (api_request now (createAPI old) m u) = ''Bearer '' @ token now"
proof -
  have "list_all (\<lambda>(s, r). sent_base r (baseUrl s) \<and> sent_Authorization r = ''Bearer '' @ token s)
        (requests_sent P a s0 acts)"
  proof (induction acts arbitrary: s0)
    case Nil
    show ?case by simp
  next
    case (Cons act acts)
    show ?case using Cons.IH send_carries by (cases act) simp_all
  qed
  then show ?thesis
    using send_carries by (simp add: handleAddFingerprint_eq api_request_def request_interceptor_def)
qed

theorem config_is_read_when_the_request_is_sent_witness:
  "map (\<lambda>(s, r). (baseUrl s, sent_Authorization r))
     (requests_sent browser (createAPI initial_settings) initial_settings session) =
     [(''http://localhost:80'', ''Bearer ''),
      (''http://192.168.1.100:80'', ''Bearer secret''),
      (''http://192.168.1.100:80'', ''Bearer secret'')]
   \<and> list_all (\<lambda>(s, r). sent_base r (baseUrl s) \<and> sent_Authorization r = ''Bearer '' @ token s)
        (requests_sent browser (createAPI initial_settings) initial_settings session)"
  using config_is_read_when_the_request_is_sent [where P = browser and a = "createAPI initial_settings"
      and ?s0.0 = initial_settings and acts = session]
  by (simp add: session_def initial_settings_def setBaseUrl_def setToken_def createAPI_def
      api_request_def request_interceptor_def add_fingerprint_request_def)

text \<open>
  C10. When the stream ends, the text after the last newline is still in the buffer and
  is dropped. For a stream whose text is the newline-terminated lines \<open>ls\<close> followed by a
  partial line, the final state is the one the lines \<open>ls\<close> alone give: the partial line
  is not parsed and gives no entry of the log. Unless a line of \<open>ls\<close> made the function
  return, the entry \<open>Registration stream ended.\<close> is the last one.
\<close>

theorem partial_line_is_discarded:
  fixes now :: settings and seen :: bool and name :: string and ui :: fingerprint_list
  assumes "streaming resp"
    and "decode P (decoder_new P) (concat cs) = (terminated ls @ partial, d')"
    and "\<forall>l \<in> set ls. CHR 0x0A \<notin> set l"
    and "CHR 0x0A \<notin> set partial"
  defines "start \<equiv> handleAddFingerprint P now seen name ui"
  defines "final \<equiv> run P start (FetchSettled (Resolved resp) # chunks cs @ [ReadSettled (Resolved Done)])"
  shows "snd final =
           (case process_lines P (snd start) ls of
              (Return, u) \<Rightarrow> finally_block (fst start) u
            | (Continue, u) \<Rightarrow> snd (read_done (fst start) u))
       \<and> sseLog (snd final) =
           (case process_lines P (snd start) ls of
              (Return, u) \<Rightarrow> sseLog u
            | (Continue, u) \<Rightarrow> sseLog u @ [JStr ''Registration stream ended.''])"
proof -
  obtain iv0 ui0 where s0: "start = (iv0, ui0)" by (cases start)
  then have h: "handleAddFingerprint P now seen name ui = (iv0, ui0)" by (simp add: start_def)
  have sp: "butlast (split_nl (terminated ls @ partial)) = ls"
    using split_nl_terminated [OF assms(3,4)] by simp
  obtain f u where p: "process_lines P ui0 ls = (f, u)" by (cases "process_lines P ui0 ls")
  show ?thesis
  proof (cases f)
    case Continue
    have "run P (iv0, ui0) (FetchSettled (Resolved resp) # chunks cs) =
        (iv0\<lparr>pc := AwaitRead, decoder := d', buffer := last (split_nl (terminated ls @ partial))\<rparr>, u)"
      using run_stream_Continue [OF assms(1) h assms(2)] p Continue sp by simp
    then have "final = read_done (iv0\<lparr>pc := AwaitRead, decoder := d',
        buffer := last (split_nl (terminated ls @ partial))\<rparr>) u"
      using run_append [of P start "FetchSettled (Resolved resp) # chunks cs" "[ReadSettled (Resolved Done)]"]
      by (simp add: final_def s0 run_Cons run_Nil)
    then show ?thesis using p Continue s0 by (simp add: read_done_eq)
  next
    case Return
    have "snd (run P (iv0, ui0) (FetchSettled (Resolved resp) # chunks cs)) = finally_block iv0 u"
      and "pc (fst (run P (iv0, ui0) (FetchSettled (Resolved resp) # chunks cs))) = Settled"
      using run_stream_Return [OF assms(1) h assms(2)] p Return sp by simp_all
    then have "snd final = finally_block iv0 u"
      using run_append [of P start "FetchSettled (Resolved resp) # chunks cs" "[ReadSettled (Resolved Done)]"]
      by (cases "run P (iv0, ui0) (FetchSettled (Resolved resp) # chunks cs)")
         (simp add: final_def s0 run_Cons run_Nil)
    then show ?thesis using p Return s0 by (simp add: finally_block_def)
  qed
qed

theorem partial_line_is_discarded_witness:
  "streaming ok_response
   \<and> decode browser (decoder_new browser) (concat [bytes_of (terminated [line_place] @ cut_line)]) =
       (terminated [line_place] @ cut_line, utf8_start)
   \<and> CHR 0x0A \<notin> set line_place \<and> CHR 0x0A \<notin> set cut_line
   \<and> sseLog (snd (run browser (handleAddFingerprint browser initial_settings False ''Ann'' opened)
        (FetchSettled (Resolved ok_response) # chunks [bytes_of (terminated [line_place] @ cut_line)]
           @ [ReadSettled (Resolved Done)]))) =
       [starting_entry ''Ann'', JStr ''Place finger'', JStr ''Registration stream ended.'']"
  using partial_line_is_discarded [OF streaming_ok decode_cut, of initial_settings False "''Ann''" opened,
      THEN conjunct2]
    streaming_ok decode_cut nl_place nl_cut
  by (simp add: process_line_place handleAddFingerprint_eq)

end
